theory Spec2Isabelle
  imports Main "HOL-Library.Sublist" "HOL-Library.Log_Nat" "HOL-Library.Word"
begin

section \<open>Formatting helpers\<close>

text \<open>
  Decimal rendering of a non-negative and of a signed integer, as Go's \<^verbatim>\<open>%d\<close> prints them.
\<close>

function string_of_nat :: "nat \<Rightarrow> string" where
  "string_of_nat n =
     (if n < 10 then [''0123456789'' ! n]
      else string_of_nat (n div 10) @ [''0123456789'' ! (n mod 10)])"
  by pat_completeness auto
termination
  by (relation "measure (\<lambda>n. n)") auto

definition string_of_int :: "int \<Rightarrow> string" where
  "string_of_int i =
     (if i < 0 then CHR ''-'' # string_of_nat (nat (- i)) else string_of_nat (nat i))"

section \<open>Floating-point numbers and Go's numeric conversions\<close>

text \<open>
  A floating-point value is kept exactly: \<open>Finite m e\<close> is the number \<open>m * 2\<^sup>e\<close>, and the
  three special values stand beside it. The \<^verbatim>\<open>float64\<close> values are those with
  \<open>\<bar>m\<bar> < 2\<^sup>5\<^sup>3\<close> and an exponent in range, the \<^verbatim>\<open>float32\<close> values those with
  \<open>\<bar>m\<bar> < 2\<^sup>2\<^sup>4\<close>; a \<^verbatim>\<open>float32\<close> converts to \<^verbatim>\<open>float64\<close> without change.
\<close>

datatype float64 = Finite int int | PosInf | NegInf | NaN

fun isFloat64 :: "float64 \<Rightarrow> bool" where
  "isFloat64 (Finite m e) = (\<bar>m\<bar> < 2 ^ 53 \<and> - 1074 \<le> e \<and> e \<le> 971)"
| "isFloat64 v = True"

fun isFloat32 :: "float64 \<Rightarrow> bool" where
  "isFloat32 (Finite m e) = (\<bar>m\<bar> < 2 ^ 24 \<and> - 149 \<le> e \<and> e \<le> 104)"
| "isFloat32 v = True"

text \<open>Go's \<^verbatim>\<open>==\<close> on floats: by value, and NaN equals nothing.\<close>

fun float64Eq :: "float64 \<Rightarrow> float64 \<Rightarrow> bool" where
  "float64Eq (Finite m e) (Finite n f) =
     (let d = min e f in m * 2 ^ nat (e - d) = n * 2 ^ nat (f - d))"
| "float64Eq PosInf PosInf = True"
| "float64Eq NegInf NegInf = True"
| "float64Eq v w = False"

text \<open>
  The integral part of a finite value (the fraction discarded, towards zero), and
  whether the fraction is zero.
\<close>

fun integralPart :: "float64 \<Rightarrow> int option" where
  "integralPart (Finite m e) =
     Some (if 0 \<le> e then m * 2 ^ nat e else sgn m * (\<bar>m\<bar> div 2 ^ nat (- e)))"
| "integralPart v = None"

fun fracZero :: "float64 \<Rightarrow> bool" where
  "fracZero (Finite m e) = (0 \<le> e \<or> 2 ^ nat (- e) dvd m)"
| "fracZero v = False"

definition inInt64 :: "int \<Rightarrow> bool" where
  "inInt64 i = (- (2 ^ 63) \<le> i \<and> i < 2 ^ 63)"

text \<open>
  Go's conversion \<^verbatim>\<open>int(v)\<close> of a float, with \<^verbatim>\<open>int\<close> of 64 bits: the fraction is
  discarded. When the result is not an \<^verbatim>\<open>int\<close> (the value is out of range, infinite or
  NaN) the language leaves the result to the implementation; it is some 64-bit integer,
  given by the parameter \<open>impl\<close>.
\<close>

definition float64ToInt :: "(float64 \<Rightarrow> 64 word) \<Rightarrow> float64 \<Rightarrow> int" where
  "float64ToInt impl v =
     (case integralPart v of
        Some i \<Rightarrow> if inInt64 i then i else sint (impl v)
      | None \<Rightarrow> sint (impl v))"

text \<open>
  On amd64 the conversion instruction gives the smallest 64-bit integer for every value
  that is out of range.
\<close>

definition amd64Overflow :: "float64 \<Rightarrow> 64 word" where
  "amd64Overflow v = - (2 ^ 63)"

text \<open>
  Go's conversion \<^verbatim>\<open>float64(i)\<close> of an integer: the nearest value with a mantissa of 53
  bits, a tie going to the even mantissa.
\<close>

definition intToFloat64 :: "int \<Rightarrow> float64" where
  "intToFloat64 i =
     (let a = \<bar>i\<bar>; k = nat (bitlen a - 53) in
      if k = 0 then Finite i 0
      else
        let q = a div 2 ^ k; r = a mod 2 ^ k; h = 2 ^ (k - 1);
            q' = (if h < r \<or> (r = h \<and> odd q) then q + 1 else q)
        in Finite (sgn i * q') (int k))"

section \<open>Values of Go's \<^verbatim>\<open>any\<close> in a decoded configuration\<close>

text \<open>
  The values that \<^verbatim>\<open>json.Unmarshal\<close> puts into a \<^verbatim>\<open>map[string]any\<close> (nil, bool, float64,
  string, slice, map), with the \<^verbatim>\<open>float32\<close> and \<^verbatim>\<open>int\<close> that \<^verbatim>\<open>castFloatToInt\<close> reads and
  writes. A map is a list of entries with distinct keys.
\<close>

datatype any = ANil | ABool bool | AFloat32 float64 | AFloat64 float64 | AInt int
  | AString string | ASlice "any list" | AMap "(string \<times> any) list"

section \<open>Paths of the dynamic document model (libs/dyn)\<close>

text \<open>
  Modelled from the spec: the package \<^verbatim>\<open>libs/dyn\<close> (type \<^verbatim>\<open>dyn.Path\<close>, with
  \<^verbatim>\<open>NewPath\<close>, \<^verbatim>\<open>HasPrefix\<close> and \<^verbatim>\<open>String\<close>) is not among the source files. The spec, section 3:
  a Path is an ordered sequence of components, each either a mapping key or a sequence
  index; paths support prefix testing and rendering in dotted and bracketed notation
  (\<^verbatim>\<open>resources.jobs.job0.tasks[0]\<close>, and \<^verbatim>\<open>include[0]\<close> in the tests).
\<close>

datatype pathComponent = Key string | Index int

type_synonym Path = "pathComponent list"

definition NewPath :: "pathComponent list \<Rightarrow> Path" where
  "NewPath cs = cs"

text \<open>
  Modelled from the spec: \<^verbatim>\<open>p.HasPrefix(q)\<close>, true when the components of \<open>q\<close> are the
  first components of \<open>p\<close>.
\<close>

fun HasPrefix :: "Path \<Rightarrow> Path \<Rightarrow> bool" where
  "HasPrefix p [] = True"
| "HasPrefix [] (c # q) = False"
| "HasPrefix (a # p) (c # q) = (a = c \<and> HasPrefix p q)"

text \<open>
  Modelled from the spec: \<^verbatim>\<open>p.String()\<close>. A key is written after a dot, except when it
  is the first component; an index is written in brackets.
\<close>

fun renderComponents :: "bool \<Rightarrow> Path \<Rightarrow> string" where
  "renderComponents first [] = []"
| "renderComponents first (Key k # cs) =
     (if first then k else CHR ''.'' # k) @ renderComponents False cs"
| "renderComponents first (Index i # cs) =
     (CHR ''['' # string_of_int i @ '']'') @ renderComponents False cs"

definition String :: "Path \<Rightarrow> string" where
  "String p = renderComponents True p"

section \<open>Errors\<close>

text \<open>
  An error made by \<^verbatim>\<open>fmt.Errorf(format, args...)\<close> is kept as the format string of the
  source with its arguments, each tagged by the verb that prints it: \<^verbatim>\<open>%s\<close>, \<^verbatim>\<open>%q\<close>
  (a quoted string), \<^verbatim>\<open>%v\<close> (a value) or \<^verbatim>\<open>%w\<close> (a wrapped error). An error that a
  library call outside this repository returns is \<open>External\<close>; a run-time panic is
  \<open>Panic\<close>.
\<close>

datatype error = Errorf string "arg list" | External string | Panic string
  and arg = S string | Q string | V any | W error

section \<open>The override visitors of the Python mutator (python\_mutator.go)\<close>

text \<open>
  \<^verbatim>\<open>merge.OverrideVisitor\<close>: the three callbacks of an override policy. \<^verbatim>\<open>VisitDelete\<close>
  returns an error or nil; \<^verbatim>\<open>VisitInsert\<close> and \<^verbatim>\<open>VisitUpdate\<close> return a value or an error.
  The type of values is a parameter: the visitors only pass values through.
\<close>

record 'v OverrideVisitor =
  VisitDelete :: "Path \<Rightarrow> 'v \<Rightarrow> error option"
  VisitInsert :: "Path \<Rightarrow> 'v \<Rightarrow> error + 'v"
  VisitUpdate :: "Path \<Rightarrow> 'v \<Rightarrow> 'v \<Rightarrow> error + 'v"

definition jobsPath :: Path where
  "jobsPath = NewPath [Key ''resources'', Key ''jobs'']"

text \<open>The three formats of \<^verbatim>\<open>unexpected change at %q (...)\<close>, as the source writes them.\<close>

definition unexpectedDelete :: "Path \<Rightarrow> error" where
  "unexpectedDelete valuePath = Errorf ''unexpected change at %q (delete)'' [Q (String valuePath)]"

definition unexpectedInsert :: "Path \<Rightarrow> error" where
  "unexpectedInsert valuePath = Errorf ''unexpected change at %q (insert)'' [Q (String valuePath)]"

definition unexpectedUpdate :: "Path \<Rightarrow> error" where
  "unexpectedUpdate valuePath = Errorf ''unexpected change at %q (update)'' [Q (String valuePath)]"

text \<open>
  \<^verbatim>\<open>createLoadOverrideVisitor\<close>: during load only new resources may be created. The calls
  of \<^verbatim>\<open>log.Debugf\<close> have no effect on the result and are left out.
\<close>

definition createLoadOverrideVisitor :: "'v OverrideVisitor" where
  "createLoadOverrideVisitor =
     \<lparr> VisitDelete = (\<lambda>valuePath left. Some (unexpectedDelete valuePath)),
       VisitInsert = (\<lambda>valuePath right.
         if \<not> HasPrefix valuePath jobsPath then Inl (unexpectedInsert valuePath)
         else if \<not> (length valuePath = length jobsPath + 1) then Inl (unexpectedInsert valuePath)
         else Inr right),
       VisitUpdate = (\<lambda>valuePath left right. Inl (unexpectedUpdate valuePath)) \<rparr>"

text \<open>
  \<^verbatim>\<open>createInitOverrideVisitor\<close>: during init resources may be created and modified, and
  a resource may not be deleted.
\<close>

definition createInitOverrideVisitor :: "'v OverrideVisitor" where
  "createInitOverrideVisitor =
     \<lparr> VisitDelete = (\<lambda>valuePath left.
         if \<not> HasPrefix valuePath jobsPath then Some (unexpectedDelete valuePath)
         else if length valuePath = length jobsPath + 1 then Some (unexpectedDelete valuePath)
         else None),
       VisitInsert = (\<lambda>valuePath right.
         if \<not> HasPrefix valuePath jobsPath then Inl (unexpectedInsert valuePath)
         else Inr right),
       VisitUpdate = (\<lambda>valuePath left right.
         if \<not> HasPrefix valuePath jobsPath then Inl (unexpectedUpdate valuePath)
         else Inr right) \<rparr>"

text \<open>The two phases, and \<^verbatim>\<open>createOverrideVisitor\<close>, which chooses the visitor of a phase.\<close>

type_synonym phase = string

definition PythonMutatorPhaseLoad :: phase where
  "PythonMutatorPhaseLoad = ''load''"

definition PythonMutatorPhaseInit :: phase where
  "PythonMutatorPhaseInit = ''init''"

definition createOverrideVisitor :: "phase \<Rightarrow> error + 'v OverrideVisitor" where
  "createOverrideVisitor ph =
     (if ph = PythonMutatorPhaseLoad then Inr createLoadOverrideVisitor
      else if ph = PythonMutatorPhaseInit then Inr createInitOverrideVisitor
      else Inl (Errorf ''unknown phase: %s'' [S ph]))"

section \<open>Template schemas (libs/template/schema.go)\<close>

type_synonym PropertyType = string

definition PropertyTypeString :: PropertyType where
  "PropertyTypeString = ''string''"

definition PropertyTypeInt :: PropertyType where
  "PropertyTypeInt = ''integer''"

definition PropertyTypeNumber :: PropertyType where
  "PropertyTypeNumber = ''number''"

definition PropertyTypeBoolean :: PropertyType where
  "PropertyTypeBoolean = ''boolean''"

record Property =
  Type :: PropertyType
  Description :: string

text \<open>
  \<^verbatim>\<open>Schema.Properties\<close> and a configuration are Go maps. A map is kept as the list of its
  entries, in the order in which \<^verbatim>\<open>range\<close> yields them (an order that Go does not fix);
  a key is looked up with \<open>map_of\<close>.
\<close>

record Schema =
  Properties :: "(string \<times> Property) list"

type_synonym config = "(string \<times> any) list"

text \<open>\<^verbatim>\<open>isIntegerValue\<close>: \<^verbatim>\<open>v == float64(int(v))\<close>.\<close>

definition isIntegerValue :: "(float64 \<Rightarrow> 64 word) \<Rightarrow> float64 \<Rightarrow> bool" where
  "isIntegerValue impl v = float64Eq v (intToFloat64 (float64ToInt impl v))"

definition notDefinedInSchema :: "string \<Rightarrow> error" where
  "notDefinedInSchema k = Errorf ''%s is not defined as an input parameter for the template'' [S k]"

definition notAnInteger :: "string \<Rightarrow> any \<Rightarrow> error" where
  "notAnInteger k v = Errorf ''expected %s to have integer value but it is %v'' [S k, V v]"

text \<open>
  The body of the loop of \<^verbatim>\<open>castFloatToInt\<close> at the entry \<open>(k, v)\<close>: an error, or the
  value that the key holds afterwards (\<open>v\<close> itself where the body assigns nothing).
  \<^verbatim>\<open>reflect.TypeOf(nil)\<close> is nil, and the call of \<^verbatim>\<open>Kind\<close> on it panics.
\<close>

definition castEntry :: "(float64 \<Rightarrow> 64 word) \<Rightarrow> Schema \<Rightarrow> string \<Rightarrow> any \<Rightarrow> error + any" where
  "castEntry impl schema k v =
     (case map_of (Properties schema) k of
        None \<Rightarrow> Inl (notDefinedInSchema k)
      | Some fieldInfo \<Rightarrow>
          if Type fieldInfo \<noteq> PropertyTypeInt then Inr v
          else
            (case v of
               ANil \<Rightarrow> Inl (Panic ''invalid memory address or nil pointer dereference'')
             | AFloat32 floatVal \<Rightarrow>
                 if \<not> isIntegerValue impl floatVal then Inl (notAnInteger k v)
                 else Inr (AInt (float64ToInt impl floatVal))
             | AFloat64 floatVal \<Rightarrow>
                 if \<not> isIntegerValue impl floatVal then Inl (notAnInteger k v)
                 else Inr (AInt (float64ToInt impl floatVal))
             | _ \<Rightarrow> Inr v))"

text \<open>
  \<^verbatim>\<open>castFloatToInt\<close> changes the map in place and returns an error or nil: the result is
  the error and the map as the call leaves it. The entries before the failing one have
  been converted already; the failing entry and those after it are as they were.
\<close>

fun castFloatToInt :: "(float64 \<Rightarrow> 64 word) \<Rightarrow> config \<Rightarrow> Schema \<Rightarrow> error option \<times> config" where
  "castFloatToInt impl [] schema = (None, [])"
| "castFloatToInt impl ((k, v) # rest) schema =
     (case castEntry impl schema k v of
        Inl err \<Rightarrow> (Some err, (k, v) # rest)
      | Inr v' \<Rightarrow>
          (case castFloatToInt impl rest schema of
             (err, rest') \<Rightarrow> (err, (k, v') # rest')))"

text \<open>
  The table \<^verbatim>\<open>validators\<close> (a validator for some of the property types) is defined
  outside the source files at hand and is a parameter. \<^verbatim>\<open>validateType\<close> accepts every
  value when the table has no validator for the type.
\<close>

type_synonym validators = "PropertyType \<Rightarrow> (any \<Rightarrow> error option) option"

definition validateType :: "validators \<Rightarrow> any \<Rightarrow> PropertyType \<Rightarrow> error option" where
  "validateType validators v fieldType =
     (case validators fieldType of
        None \<Rightarrow> None
      | Some validateFunc \<Rightarrow> validateFunc v)"

text \<open>The first loop of \<^verbatim>\<open>ValidateConfig\<close>, over the entries of the configuration.\<close>

fun validateEntries :: "validators \<Rightarrow> Schema \<Rightarrow> config \<Rightarrow> error option" where
  "validateEntries validators schema [] = None"
| "validateEntries validators schema ((k, v) # rest) =
     (case map_of (Properties schema) k of
        None \<Rightarrow> Some (notDefinedInSchema k)
      | Some fieldMetadata \<Rightarrow>
          (case validateType validators v (Type fieldMetadata) of
             Some err \<Rightarrow> Some (Errorf ''incorrect type for %s. %w'' [S k, W err])
           | None \<Rightarrow> validateEntries validators schema rest))"

text \<open>The second loop, over the properties of the schema.\<close>

fun assertDefined :: "config \<Rightarrow> (string \<times> Property) list \<Rightarrow> error option" where
  "assertDefined config [] = None"
| "assertDefined config ((k, p) # rest) =
     (case map_of config k of
        None \<Rightarrow> Some (Errorf ''input parameter %s is not defined in config'' [S k])
      | Some v \<Rightarrow> assertDefined config rest)"

definition ValidateConfig :: "validators \<Rightarrow> Schema \<Rightarrow> config \<Rightarrow> error option" where
  "ValidateConfig validators schema config =
     (case validateEntries validators schema config of
        Some err \<Rightarrow> Some err
      | None \<Rightarrow> assertDefined config (Properties schema))"

text \<open>
  Modelled from the spec: the table \<^verbatim>\<open>validators\<close> of the repository is not among the
  source files. The spec, section 4.4: in strict mode every value's runtime kind must
  match its declared type. This table serves as an instance of the parameter.
\<close>

definition expectedType :: "string \<Rightarrow> any \<Rightarrow> error" where
  "expectedType name v = Errorf ''expected type %s, but value is %v'' [S name, V v]"

definition kindValidators :: validators where
  "kindValidators fieldType =
     (if fieldType = PropertyTypeString then
        Some (\<lambda>v. case v of AString s \<Rightarrow> None | _ \<Rightarrow> Some (expectedType ''string'' v))
      else if fieldType = PropertyTypeInt then
        Some (\<lambda>v. case v of AInt i \<Rightarrow> None | _ \<Rightarrow> Some (expectedType ''integer'' v))
      else if fieldType = PropertyTypeNumber then
        Some (\<lambda>v. case v of AFloat32 f \<Rightarrow> None | AFloat64 f \<Rightarrow> None
                 | _ \<Rightarrow> Some (expectedType ''float'' v))
      else if fieldType = PropertyTypeBoolean then
        Some (\<lambda>v. case v of ABool b \<Rightarrow> None | _ \<Rightarrow> Some (expectedType ''boolean'' v))
      else None)"

text \<open>A schema with a string and an integer property, for the examples.\<close>

definition exampleSchema :: Schema where
  "exampleSchema =
     \<lparr> Properties =
         [(''name'', \<lparr> Type = PropertyTypeString, Description = ''the name'' \<rparr>),
          (''count'', \<lparr> Type = PropertyTypeInt, Description = ''how many'' \<rparr>)] \<rparr>"

text \<open>The value of \<open>v\<close> is the integer \<open>i\<close>: \<open>v\<close> is finite and has no fractional part.\<close>

definition integerValued :: "float64 \<Rightarrow> int \<Rightarrow> bool" where
  "integerValued v i = (fracZero v \<and> integralPart v = Some i)"

section \<open>The dynamic document model (libs/dyn)\<close>

text \<open>
  Modelled from the spec: the package \<^verbatim>\<open>libs/dyn\<close> is not among the source files. The
  spec, section 3: a Location is a file, a line and a column; a Value is a tagged variant
  over null, bool, int64, float64, string, sequence and mapping, and every Value carries
  exactly one Location. A mapping keeps the order of its entries and is looked up by key.
\<close>

record Location =
  File :: string
  Line :: int
  Column :: int

datatype data = DNil | DBool bool | DInt int | DFloat float64 | DString string
  | DSequence "Value list" | DMap "(string \<times> Value) list"
  and Value = NewValue (payload: data) (Location: Location)

text \<open>The kind of a value, \<^verbatim>\<open>v.Kind()\<close>.\<close>

datatype kind = KindMap | KindSequence | KindString | KindBool | KindInt | KindFloat | KindNil

fun dataKind :: "data \<Rightarrow> kind" where
  "dataKind (DMap m) = KindMap"
| "dataKind (DSequence s) = KindSequence"
| "dataKind (DString s) = KindString"
| "dataKind (DBool b) = KindBool"
| "dataKind (DInt i) = KindInt"
| "dataKind (DFloat f) = KindFloat"
| "dataKind DNil = KindNil"

definition Kind :: "Value \<Rightarrow> kind" where
  "Kind v = dataKind (payload v)"

text \<open>
  \<^verbatim>\<open>v.AsAny()\<close>: the plain value, without the locations.
\<close>

fun AsAny :: "Value \<Rightarrow> any" and dataAsAny :: "data \<Rightarrow> any" where
  "AsAny (NewValue d l) = dataAsAny d"
| "dataAsAny DNil = ANil"
| "dataAsAny (DBool b) = ABool b"
| "dataAsAny (DInt i) = AInt i"
| "dataAsAny (DFloat f) = AFloat64 f"
| "dataAsAny (DString s) = AString s"
| "dataAsAny (DSequence vs) = ASlice (map AsAny vs)"
| "dataAsAny (DMap ps) = AMap (map (map_prod id AsAny) ps)"

text \<open>
  Modelled from the spec: \<^verbatim>\<open>dyn.GetByPath\<close>, the node of a value that a path addresses,
  if there is one (the tests read the merged document with it).
\<close>

fun GetByPath :: "Value \<Rightarrow> Path \<Rightarrow> Value option" where
  "GetByPath v [] = Some v"
| "GetByPath v (Key k # p) =
     (case payload v of
        DMap m \<Rightarrow> (case map_of m k of Some c \<Rightarrow> GetByPath c p | None \<Rightarrow> None)
      | _ \<Rightarrow> None)"
| "GetByPath v (Index i # p) =
     (case payload v of
        DSequence s \<Rightarrow> if 0 \<le> i \<and> nat i < length s then GetByPath (s ! nat i) p else None
      | _ \<Rightarrow> None)"

section \<open>The merge engine (libs/dyn/merge)\<close>

text \<open>
  Modelled from the spec: \<^verbatim>\<open>merge.Override\<close> is not among the source files. The spec,
  section 4.5: \<^verbatim>\<open>Override(base, overlay, policy)\<close> walks both trees in lock-step by path.
  For a path present only in the overlay it invokes \<^verbatim>\<open>onInsert\<close>, for a path present only
  in the base \<^verbatim>\<open>onDelete\<close>, for a path present in both but different \<^verbatim>\<open>onUpdate\<close>; a
  callback that returns an error aborts the whole merge with that error. It recurses into
  the children of mappings and sequences only while the nodes are comparable at the same
  path; a scalar in place of a mapping (or the reverse) is one \<^verbatim>\<open>onUpdate\<close> at the node's
  own path. Section 3: after a merge a value has the Location of the side that supplied
  its content, so a node that is in both trees and is not replaced keeps the Location of
  the base.
\<close>

text \<open>The deletions: the keys of the base mapping that the overlay lacks.\<close>

fun visitDeletes ::
  "Value OverrideVisitor \<Rightarrow> Path \<Rightarrow> (string \<times> Value) list \<Rightarrow> (string \<times> Value) list \<Rightarrow> error option" where
  "visitDeletes visitor basePath [] rightMapping = None"
| "visitDeletes visitor basePath ((k, lv) # rest) rightMapping =
     (case map_of rightMapping k of
        Some rv \<Rightarrow> visitDeletes visitor basePath rest rightMapping
      | None \<Rightarrow>
          (case VisitDelete visitor (basePath @ [Key k]) lv of
             Some err \<Rightarrow> Some err
           | None \<Rightarrow> visitDeletes visitor basePath rest rightMapping))"

text \<open>The deletions in a sequence: the elements of the base beyond the overlay's length.\<close>

fun deleteElems :: "Value OverrideVisitor \<Rightarrow> Path \<Rightarrow> nat \<Rightarrow> Value list \<Rightarrow> error option" where
  "deleteElems visitor basePath i [] = None"
| "deleteElems visitor basePath i (lv # rest) =
     (case VisitDelete visitor (basePath @ [Index (int i)]) lv of
        Some err \<Rightarrow> Some err
      | None \<Rightarrow> deleteElems visitor basePath (Suc i) rest)"

text \<open>Two scalars of the same kind with the same content.\<close>

fun sameScalar :: "data \<Rightarrow> data \<Rightarrow> bool" where
  "sameScalar (DString a) (DString b) = (a = b)"
| "sameScalar (DBool a) (DBool b) = (a = b)"
| "sameScalar (DInt a) (DInt b) = (a = b)"
| "sameScalar (DFloat a) (DFloat b) = float64Eq a b"
| "sameScalar DNil DNil = True"
| "sameScalar a b = False"

text \<open>
  The walk. \<open>overridePairs\<close> goes through the entries of the overlay mapping and
  \<open>overrideElems\<close> through the elements of the overlay sequence, each stopping at the
  first error.
\<close>

function override :: "Value OverrideVisitor \<Rightarrow> Path \<Rightarrow> Value \<Rightarrow> Value \<Rightarrow> error + Value"
  and overridePairs :: "Value OverrideVisitor \<Rightarrow> Path \<Rightarrow> (string \<times> Value) list
      \<Rightarrow> (string \<times> Value) list \<Rightarrow> error + (string \<times> Value) list"
  and overrideElems :: "Value OverrideVisitor \<Rightarrow> Path \<Rightarrow> nat \<Rightarrow> Value list \<Rightarrow> Value list
      \<Rightarrow> error + Value list"
where
  "override visitor basePath left right =
     (if Kind left \<noteq> Kind right then VisitUpdate visitor basePath left right
      else
        (case payload right of
           DMap rightMapping \<Rightarrow>
             (case payload left of
                DMap leftMapping \<Rightarrow>
                  (case visitDeletes visitor basePath leftMapping rightMapping of
                     Some err \<Rightarrow> Inl err
                   | None \<Rightarrow>
                       (case overridePairs visitor basePath leftMapping rightMapping of
                          Inl err \<Rightarrow> Inl err
                        | Inr merged \<Rightarrow> Inr (NewValue (DMap merged) (Location left))))
              | _ \<Rightarrow> VisitUpdate visitor basePath left right)
         | DSequence rightSeq \<Rightarrow>
             (case payload left of
                DSequence leftSeq \<Rightarrow>
                  (case overrideElems visitor basePath 0 leftSeq rightSeq of
                     Inl err \<Rightarrow> Inl err
                   | Inr merged \<Rightarrow> Inr (NewValue (DSequence merged) (Location left)))
              | _ \<Rightarrow> VisitUpdate visitor basePath left right)
         | _ \<Rightarrow>
             if sameScalar (payload left) (payload right) then Inr left
             else VisitUpdate visitor basePath left right))"
| "overridePairs visitor basePath leftMapping [] = Inr []"
| "overridePairs visitor basePath leftMapping ((k, rv) # rest) =
     (case (case map_of leftMapping k of
              Some lv \<Rightarrow> override visitor (basePath @ [Key k]) lv rv
            | None \<Rightarrow> VisitInsert visitor (basePath @ [Key k]) rv) of
        Inl err \<Rightarrow> Inl err
      | Inr newValue \<Rightarrow>
          (case overridePairs visitor basePath leftMapping rest of
             Inl err \<Rightarrow> Inl err
           | Inr out \<Rightarrow> Inr ((k, newValue) # out)))"
| "overrideElems visitor basePath i leftSeq [] =
     (case deleteElems visitor basePath i leftSeq of
        Some err \<Rightarrow> Inl err
      | None \<Rightarrow> Inr [])"
| "overrideElems visitor basePath i leftSeq (rv # rest) =
     (case (case leftSeq of
              lv # lrest \<Rightarrow> override visitor (basePath @ [Index (int i)]) lv rv
            | [] \<Rightarrow> VisitInsert visitor (basePath @ [Index (int i)]) rv) of
        Inl err \<Rightarrow> Inl err
      | Inr newValue \<Rightarrow>
          (case overrideElems visitor basePath (Suc i) (tl leftSeq) rest of
             Inl err \<Rightarrow> Inl err
           | Inr out \<Rightarrow> Inr (newValue # out)))"
  by pat_completeness auto
termination
  by (relation "measure (\<lambda>x. case x of
        Inl (visitor, basePath, left, right) \<Rightarrow> size right
      | Inr (Inl (visitor, basePath, leftMapping, rightPairs)) \<Rightarrow>
          size_list (size_prod (\<lambda>x. 0) size) rightPairs
      | Inr (Inr (visitor, basePath, i, leftSeq, rightSeq)) \<Rightarrow> size_list size rightSeq)")
    (auto, (case_tac right, simp)+)

definition Override :: "Value \<Rightarrow> Value \<Rightarrow> Value OverrideVisitor \<Rightarrow> error + Value" where
  "Override leftRoot rightRoot visitor = override visitor [] leftRoot rightRoot"

section \<open>The loader (libs/dyn/yamlloader) and diagnostics (libs/diag)\<close>

text \<open>
  Modelled from the spec: \<^verbatim>\<open>yamlloader.LoadYAML(path, reader)\<close> is not among the source
  files. The spec, section 4.3: the Loader gives a Value tree in which every node carries
  the Location of its first character in the source, and it can be pointed at a virtual
  file path distinct from the physical file it reads. The parsing of the text is the
  parameter \<open>Parse\<close> of the system (below), which gives the tree with its lines and columns;
  \<open>withFile\<close> sets the file of every node.
\<close>

fun withFile :: "string \<Rightarrow> Value \<Rightarrow> Value" and dataWithFile :: "string \<Rightarrow> data \<Rightarrow> data" where
  "withFile path (NewValue d l) = NewValue (dataWithFile path d) (l\<lparr>File := path\<rparr>)"
| "dataWithFile path (DSequence vs) = DSequence (map (withFile path) vs)"
| "dataWithFile path (DMap ps) = DMap (map (map_prod id (withFile path)) ps)"
| "dataWithFile path d = d"

text \<open>
  Modelled from the spec: the package \<^verbatim>\<open>libs/diag\<close> is not among the source files. The
  spec, section 3: a Diagnostic has a severity (warning or error), a summary, a path and a
  location. \<^verbatim>\<open>Diagnostics.Error()\<close> is the first diagnostic of severity error, as an error
  made of its summary, and nil when there is none; \<^verbatim>\<open>Diagnostics.Filter(severity)\<close> keeps
  the diagnostics of that severity, in their order.
\<close>

datatype severity = Error | Warning

record Diagnostic =
  Severity :: severity
  Summary :: string
  DiagPath :: Path
  DiagLocation :: Location

fun diagError :: "Diagnostic list \<Rightarrow> error option" where
  "diagError [] = None"
| "diagError (d # ds) =
     (if Severity d = Error then Some (Errorf ''%s'' [S (Summary d)]) else diagError ds)"

definition Filter :: "severity \<Rightarrow> Diagnostic list \<Rightarrow> Diagnostic list" where
  "Filter severity ds = filter (\<lambda>d. Severity d = severity) ds"

section \<open>The operating system and the libraries around the Python mutator\<close>

text \<open>
  The mutator calls the file system, the environment and an external process. Each such
  call is recorded as an event, and the history of events is the state that the model
  passes along. What a call returns is given by a parameter, a record of functions of
  the history so far: the standard library (\<^verbatim>\<open>filepath.Join\<close>, \<^verbatim>\<open>filepath.Abs\<close>,
  \<^verbatim>\<open>os.Stat\<close>, \<^verbatim>\<open>os.IsNotExist\<close>, \<^verbatim>\<open>os.MkdirAll\<close>, \<^verbatim>\<open>os.MkdirTemp\<close>, \<^verbatim>\<open>json.Marshal\<close>,
  \<^verbatim>\<open>os.WriteFile\<close>, \<^verbatim>\<open>os.Open\<close>, \<^verbatim>\<open>runtime.GOOS\<close>), and the functions of the repository
  that are not among the source files: \<^verbatim>\<open>env.TempDir\<close> (the variable that overrides the
  cache root), \<^verbatim>\<open>process.Background\<close> (it runs the command in a directory and waits),
  the parser of the loader and \<^verbatim>\<open>convert.Normalize\<close> against \<^verbatim>\<open>config.Root\<close>. \<open>Open\<close> gives
  the content that the loader reads from the file.
\<close>

datatype event =
    EvStat string
  | EvMkdirAll string "error option"
  | EvMkdirTemp string string "error + string"
  | EvWriteFile string string
  | EvBackground "string list" string
  | EvOpen string

record sys =
  GOOS :: string
  Join :: "string list \<Rightarrow> string"
  Abs :: "event list \<Rightarrow> string \<Rightarrow> error + string"
  Stat :: "event list \<Rightarrow> string \<Rightarrow> error option"
  IsNotExist :: "error \<Rightarrow> bool"
  TempDir :: "event list \<Rightarrow> string option"
  MkdirAll :: "event list \<Rightarrow> string \<Rightarrow> error option"
  MkdirTemp :: "event list \<Rightarrow> string \<Rightarrow> string \<Rightarrow> error + string"
  Marshal :: "any \<Rightarrow> error + string"
  WriteFile :: "event list \<Rightarrow> string \<Rightarrow> string \<Rightarrow> error option"
  Background :: "event list \<Rightarrow> string list \<Rightarrow> string \<Rightarrow> error option"
  Open :: "event list \<Rightarrow> string \<Rightarrow> error + string"
  Parse :: "string \<Rightarrow> error + Value"
  Normalize :: "Value \<Rightarrow> Value \<times> Diagnostic list"

definition LoadYAML :: "sys \<Rightarrow> string \<Rightarrow> string \<Rightarrow> error + Value" where
  "LoadYAML sys path content =
     (case Parse sys content of
        Inl err \<Rightarrow> Inl err
      | Inr v \<Rightarrow> Inr (withFile path v))"

text \<open>The directories that the calls of a history have created.\<close>

fun createdDirs :: "event list \<Rightarrow> string list" where
  "createdDirs [] = []"
| "createdDirs (EvMkdirAll p None # h) = p # createdDirs h"
| "createdDirs (EvMkdirTemp d pat (Inr n) # h) = n # createdDirs h"
| "createdDirs (e # h) = createdDirs h"

section \<open>The bundle and its configuration (bundle, bundle/config)\<close>

text \<open>
  Modelled from the spec: the types \<^verbatim>\<open>bundle.Bundle\<close>, \<^verbatim>\<open>config.Root\<close>,
  \<^verbatim>\<open>config.Experimental\<close> and \<^verbatim>\<open>config.PyDABs\<close> are not among the source files; they are
  given with the fields that the mutator reads. The root of the configuration holds the
  document as a dynamic value besides its typed fields. \<^verbatim>\<open>Root.Mutate\<close> follows the spec,
  section 3: the document is replaced, never changed in place, through a transaction of
  read current, compute next, replace; a failed change leaves the old value.
\<close>

record PyDABs =
  Enabled :: bool
  VEnvPath :: string

record Experimental =
  PyDABs :: PyDABs

record Root =
  Experimental :: "Experimental option"
  "value" :: Value

record Bundle =
  RootPath :: string
  Config :: Root

definition Mutate ::
  "Root \<Rightarrow> (Value \<Rightarrow> event list \<Rightarrow> (error + Value) \<times> event list) \<Rightarrow> event list
     \<Rightarrow> error option \<times> Root \<times> event list" where
  "Mutate r fn h =
     (case fn (value r) h of
        (Inl err, h') \<Rightarrow> (Some err, r, h')
      | (Inr nv, h') \<Rightarrow> (None, r\<lparr>value := nv\<rparr>, h'))"

section \<open>The Python mutator (python\_mutator.go)\<close>

definition getExperimental :: "Bundle \<Rightarrow> Experimental" where
  "getExperimental b =
     (case Experimental (Config b) of
        None \<Rightarrow> \<lparr> PyDABs = \<lparr> Enabled = False, VEnvPath = [] \<rparr> \<rparr>
      | Some e \<Rightarrow> e)"

definition interpreterPath :: "sys \<Rightarrow> string \<Rightarrow> string" where
  "interpreterPath sys venvPath =
     (if GOOS sys = ''windows'' then Join sys [venvPath, ''Scripts'', ''python3.exe'']
      else Join sys [venvPath, ''bin'', ''python3''])"

text \<open>\<^verbatim>\<open>createCacheDir\<close>: the result and the history after the call.\<close>

definition createCacheDir :: "sys \<Rightarrow> event list \<Rightarrow> (error + string) \<times> event list" where
  "createCacheDir sys h =
     (case TempDir sys h of
        Some tempDir \<Rightarrow>
          (let cacheDir = Join sys [tempDir, ''default'', ''pydabs''];
               err = MkdirAll sys h cacheDir;
               h' = h @ [EvMkdirAll cacheDir err]
           in case err of
                Some e \<Rightarrow> (Inl e, h')
              | None \<Rightarrow> (Inr cacheDir, h'))
      | None \<Rightarrow>
          (let r = MkdirTemp sys h [] ''-pydabs''
           in (r, h @ [EvMkdirTemp [] ''-pydabs'' r])))"

text \<open>
  The end of \<^verbatim>\<open>runPythonMutator\<close>, after \<^verbatim>\<open>convert.Normalize\<close>: an error among the
  diagnostics fails first; then the first warning fails (the loop over the warnings returns
  in its first round); with neither, the normalized value is the result.
\<close>

definition checkNormalized :: "Value \<times> Diagnostic list \<Rightarrow> error + Value" where
  "checkNormalized nd =
     (case nd of (normalized, diagnostic) \<Rightarrow>
        (case diagError diagnostic of
           Some err \<Rightarrow> Inl (Errorf ''failed to normalize Python mutator output: %w'' [W err])
         | None \<Rightarrow>
             (case Filter Warning diagnostic of
                d # ds \<Rightarrow> Inl (Errorf ''failed to normalize Python mutator output: %s'' [S (Summary d)])
              | [] \<Rightarrow> Inr normalized)))"

text \<open>
  \<^verbatim>\<open>runPythonMutator\<close>. The log writers of the process and the closing of the file have no
  effect on the result.
\<close>

definition runPythonMutator ::
  "sys \<Rightarrow> phase \<Rightarrow> string \<Rightarrow> string \<Rightarrow> string \<Rightarrow> Value \<Rightarrow> event list
     \<Rightarrow> (error + Value) \<times> event list" where
  "runPythonMutator sys ph cacheDir rootPath pythonPath rootValue h =
     (let inputPath = Join sys [cacheDir, ''input.json''];
          outputPath = Join sys [cacheDir, ''output.json''];
          args = [pythonPath, ''-m'', ''databricks.bundles.build'', ''--phase'', ph,
                  ''--input'', inputPath, ''--output'', outputPath]
      in (case Marshal sys (AsAny rootValue) of
            Inl err \<Rightarrow> (Inl (Errorf ''failed to marshal root config: %w'' [W err]), h)
          | Inr rootConfigJson \<Rightarrow>
      (let h1 = h @ [EvWriteFile inputPath rootConfigJson]
       in (case WriteFile sys h inputPath rootConfigJson of
             Some err \<Rightarrow> (Inl (Errorf ''failed to write input file: %w'' [W err]), h1)
           | None \<Rightarrow>
      (let h2 = h1 @ [EvBackground args rootPath]
       in (case Background sys h1 args rootPath of
             Some err \<Rightarrow> (Inl (Errorf ''python mutator process failed: %w'' [W err]), h2)
           | None \<Rightarrow>
      (let h3 = h2 @ [EvOpen outputPath]
       in (case Open sys h2 outputPath of
             Inl err \<Rightarrow> (Inl (Errorf ''failed to open Python mutator output: %w'' [W err]), h3)
           | Inr outputFile \<Rightarrow>
      (case Abs sys h3 (Join sys [rootPath, ''__generated_by_pydabs__.yml'']) of
             Inl err \<Rightarrow> (Inl (Errorf ''failed to get absolute path: %w'' [W err]), h3)
           | Inr virtualPath \<Rightarrow>
      (case LoadYAML sys virtualPath outputFile of
             Inl err \<Rightarrow> (Inl (Errorf ''failed to parse Python mutator output: %w'' [W err]), h3)
           | Inr generated \<Rightarrow> (checkNormalized (Normalize sys generated), h3)))))))))))"

definition venvPathRequired :: error where
  \<open>venvPathRequired =
     Errorf ''"experimental.pydabs.enabled" can only be used when "experimental.pydabs.venv_path" is set'' []\<close>

text \<open>The function that \<^verbatim>\<open>Apply\<close> passes to \<^verbatim>\<open>Mutate\<close>.\<close>

definition applyMutation ::
  "sys \<Rightarrow> phase \<Rightarrow> string \<Rightarrow> Experimental \<Rightarrow> Value \<Rightarrow> event list
     \<Rightarrow> (error + Value) \<times> event list" where
  "applyMutation sys ph rootPath experimental leftRoot h =
     (let pythonPath = interpreterPath sys (VEnvPath (PyDABs experimental));
          h1 = h @ [EvStat pythonPath]
      in (case Stat sys h pythonPath of
            Some err \<Rightarrow>
              if IsNotExist sys err
              then (Inl (Errorf ''can't find %q, check if venv is created'' [Q pythonPath]), h1)
              else (Inl (Errorf ''can't find %q: %w'' [Q pythonPath, W err]), h1)
          | None \<Rightarrow>
      (case createCacheDir sys h1 of
            (Inl err, h2) \<Rightarrow> (Inl (Errorf ''failed to create cache dir: %w'' [W err]), h2)
          | (Inr cacheDir, h2) \<Rightarrow>
      (case runPythonMutator sys ph cacheDir rootPath pythonPath leftRoot h2 of
            (Inl err, h3) \<Rightarrow> (Inl err, h3)
          | (Inr rightRoot, h3) \<Rightarrow>
      (case createOverrideVisitor ph of
            Inl err \<Rightarrow> (Inl err, h3)
          | Inr visitor \<Rightarrow> (Override leftRoot rightRoot visitor, h3))))))"

text \<open>
  \<^verbatim>\<open>Apply\<close> returns diagnostics: none, or one error (\<^verbatim>\<open>diag.Errorf\<close>, or \<^verbatim>\<open>diag.FromErr\<close> of
  the error of \<^verbatim>\<open>Mutate\<close>). The result is that error if there is one, the bundle and the
  history after the call.
\<close>

definition Apply :: "sys \<Rightarrow> phase \<Rightarrow> Bundle \<Rightarrow> event list \<Rightarrow> error option \<times> Bundle \<times> event list" where
  "Apply sys ph b h =
     (let experimental = getExperimental b
      in if \<not> Enabled (PyDABs experimental) then (None, b, h)
         else if VEnvPath (PyDABs experimental) = [] then (Some venvPathRequired, b, h)
         else
           (case Mutate (Config b) (applyMutation sys ph (RootPath b) experimental) h of
              (err, root', h') \<Rightarrow> (err, b\<lparr>Config := root'\<rparr>, h')))"

section \<open>A system for the examples\<close>

text \<open>
  \<^verbatim>\<open>filepath.Clean\<close>, \<^verbatim>\<open>filepath.Join\<close> and \<^verbatim>\<open>filepath.Abs\<close> as they work on Unix, where
  the separator is the slash: \<open>Clean\<close> drops empty and dot components, resolves each
  dot-dot against the component before it, and gives a dot for the empty path.
\<close>

fun splitOn :: "char \<Rightarrow> string \<Rightarrow> string list" where
  "splitOn c [] = [[]]"
| "splitOn c (x # xs) =
     (if x = c then [] # splitOn c xs
      else (case splitOn c xs of
              w # ws \<Rightarrow> (x # w) # ws
            | [] \<Rightarrow> [[x]]))"

fun joinWith :: "string \<Rightarrow> string list \<Rightarrow> string" where
  "joinWith sep [] = []"
| "joinWith sep [e] = e"
| "joinWith sep (e # es) = e @ sep @ joinWith sep es"

fun cleanComponents :: "bool \<Rightarrow> string list \<Rightarrow> string list \<Rightarrow> string list" where
  "cleanComponents rooted out [] = rev out"
| "cleanComponents rooted out (c # cs) =
     (if c = [] \<or> c = ''.'' then cleanComponents rooted out cs
      else if c = ''..'' then
        (case out of
           prev # below \<Rightarrow>
             if prev = ''..'' then cleanComponents rooted (c # out) cs
             else cleanComponents rooted below cs
         | [] \<Rightarrow>
             if rooted then cleanComponents rooted out cs
             else cleanComponents rooted [c] cs)
      else cleanComponents rooted (c # out) cs)"

definition Clean :: "string \<Rightarrow> string" where
  "Clean path =
     (if path = [] then ''.''
      else
        (let rooted = (hd path = CHR ''/'');
             body = joinWith ''/'' (cleanComponents rooted [] (splitOn CHR ''/'' path))
         in if rooted then CHR ''/'' # body
            else if body = [] then ''.'' else body))"

definition unixJoin :: "string list \<Rightarrow> string" where
  "unixJoin elem =
     (case dropWhile (\<lambda>e. e = []) elem of
        [] \<Rightarrow> []
      | e # es \<Rightarrow> Clean (joinWith ''/'' (e # es)))"

definition unixAbs :: "string \<Rightarrow> string \<Rightarrow> error + string" where
  "unixAbs wd path =
     (if path \<noteq> [] \<and> hd path = CHR ''/'' then Inr (Clean path)
      else Inr (unixJoin [wd, path]))"

text \<open>
  A system after the setup of the tests: the interpreter of the virtual environment
  \<^verbatim>\<open>.venv\<close> exists, the cache root is set by the environment, and the process is a stub
  that leaves the given output, which normalizes with the given diagnostics.
\<close>

definition exampleSys :: "Value \<Rightarrow> Diagnostic list \<Rightarrow> sys" where
  "exampleSys output diagnostics =
     \<lparr> GOOS = ''linux'',
       Join = unixJoin,
       Abs = (\<lambda>h path. unixAbs ''/project'' path),
       Stat = (\<lambda>h path. if path = ''.venv/bin/python3'' then None
                         else Some (External ''no such file or directory'')),
       IsNotExist = (\<lambda>err. err = External ''no such file or directory''),
       TempDir = (\<lambda>h. Some ''/tmp/bundle''),
       MkdirAll = (\<lambda>h path. None),
       MkdirTemp = (\<lambda>h dir pattern. Inl (External ''no temporary directory'')),
       Marshal = (\<lambda>v. Inr ''{}''),
       WriteFile = (\<lambda>h path content. None),
       Background = (\<lambda>h args dir. None),
       Open = (\<lambda>h path. Inr ''output''),
       Parse = (\<lambda>content. Inr output),
       Normalize = (\<lambda>v. (v, diagnostics)) \<rparr>"

text \<open>Values as the loader gives them for a file, and the documents of the tests.\<close>

definition position :: "string \<Rightarrow> int \<Rightarrow> int \<Rightarrow> Location" where
  "position file line column = \<lparr> File = file, Line = line, Column = column \<rparr>"

definition pydabsSection :: "string \<Rightarrow> Value" where
  "pydabsSection file =
     NewValue (DMap
       [(''pydabs'', NewValue (DMap
           [(''enabled'', NewValue (DBool True) (position file 4 20)),
            (''venv_path'', NewValue (DString ''.venv'') (position file 5 22))]) (position file 4 11))])
       (position file 3 9)"

text \<open>The document of \<^verbatim>\<open>databricks.yml\<close> in the tests: one job, with a name.\<close>

definition exampleDocument :: Value where
  "exampleDocument =
     NewValue (DMap
       [(''experimental'', pydabsSection ''databricks.yml''),
        (''resources'', NewValue (DMap
           [(''jobs'', NewValue (DMap
               [(''job0'', NewValue (DMap
                   [(''name'', NewValue (DString ''job_0'') (position ''databricks.yml'' 9 19))])
                   (position ''databricks.yml'' 9 13))])
               (position ''databricks.yml'' 8 11))])
           (position ''databricks.yml'' 7 9))])
       (position ''databricks.yml'' 2 7)"

definition exampleBundle :: "Experimental option \<Rightarrow> Bundle" where
  "exampleBundle experimental =
     \<lparr> RootPath = ''/project'',
       Config = \<lparr> Experimental = experimental, value = exampleDocument \<rparr> \<rparr>"

definition pydabsEnabled :: "string \<Rightarrow> Experimental option" where
  "pydabsEnabled venvPath = Some \<lparr> PyDABs = \<lparr> Enabled = True, VEnvPath = venvPath \<rparr> \<rparr>"

text \<open>
  Diagnostics of a normalization, as the spec describes them (section 4.4): a warning for
  an unknown field, an error for a type mismatch.
\<close>

definition unknownFieldWarning :: Diagnostic where
  "unknownFieldWarning =
     \<lparr> Severity = Warning, Summary = ''unknown field: unknown_property'',
       DiagPath = [Key ''resources'', Key ''jobs'', Key ''job0''],
       DiagLocation = position ''/project/__generated_by_pydabs__.yml'' 5 7 \<rparr>"

definition typeMismatchError :: Diagnostic where
  "typeMismatchError =
     \<lparr> Severity = Error, Summary = ''expected string, found map'',
       DiagPath = [Key ''resources'', Key ''jobs'', Key ''job0'', Key ''name''],
       DiagLocation = position ''/project/__generated_by_pydabs__.yml'' 4 7 \<rparr>"

text \<open>The command line and the history of calls of a run in the example system.\<close>

definition exampleArgs :: "phase \<Rightarrow> string list" where
  "exampleArgs ph =
     [''.venv/bin/python3'', ''-m'', ''databricks.bundles.build'', ''--phase'', ph,
      ''--input'', ''/tmp/bundle/default/pydabs/input.json'',
      ''--output'', ''/tmp/bundle/default/pydabs/output.json'']"

definition exampleHistory :: "phase \<Rightarrow> event list" where
  "exampleHistory ph =
     [EvStat ''.venv/bin/python3'',
      EvMkdirAll ''/tmp/bundle/default/pydabs'' None,
      EvWriteFile ''/tmp/bundle/default/pydabs/input.json'' ''{}'',
      EvBackground (exampleArgs ph) ''/project'',
      EvOpen ''/tmp/bundle/default/pydabs/output.json'']"

text \<open>
  Two more systems: one where the variable of the cache root is not set and
  \<^verbatim>\<open>os.MkdirTemp\<close> numbers its directories, and one where \<^verbatim>\<open>os.MkdirAll\<close> fails.
\<close>

definition tempSys :: sys where
  "tempSys =
     (exampleSys exampleDocument [])
       \<lparr> TempDir := (\<lambda>h. None),
         MkdirTemp := (\<lambda>h dir pattern. Inr (''/tmp/'' @ pattern @ string_of_nat (length h))) \<rparr>"

definition readOnlySys :: sys where
  "readOnlySys =
     (exampleSys exampleDocument [])
       \<lparr> MkdirAll := (\<lambda>h path. Some (External ''permission denied'')) \<rparr>"

section \<open>Merges: what a visitor passes through, and untouched fields\<close>

text \<open>
  A visitor that, where it permits an insert or an update, gives the value of the
  overlay as it is. Both visitors of the Python mutator do.
\<close>

definition passesRight :: "Value OverrideVisitor \<Rightarrow> bool" where
  "passesRight visitor =
     (\<forall>p l r x. (VisitInsert visitor p r = Inr x \<longrightarrow> x = r)
              \<and> (VisitUpdate visitor p l r = Inr x \<longrightarrow> x = r))"

text \<open>A mapping or a sequence, as against a scalar.\<close>

definition isContainer :: "Value \<Rightarrow> bool" where
  "isContainer v = (Kind v = KindMap \<or> Kind v = KindSequence)"

text \<open>
  A field is untouched by the overlay when the overlay has a node of the same kind in
  its place and, for a scalar, of the same content.
\<close>

definition untouched :: "Value \<Rightarrow> Value \<Rightarrow> bool" where
  "untouched a b =
     (Kind a = Kind b \<and> (isContainer a \<or> sameScalar (payload a) (payload b)))"

text \<open>
  The output of the plugin in the test of the init phase, as the parser gives it (the
  file of each node is set by the loader): the job of the document with a description
  added. Then the document after the merge, and the file of the node at a path.
\<close>

definition generatedOutput :: Value where
  "generatedOutput =
     NewValue (DMap
       [(''experimental'', pydabsSection []),
        (''resources'', NewValue (DMap
           [(''jobs'', NewValue (DMap
               [(''job0'', NewValue (DMap
                   [(''name'', NewValue (DString ''job_0'') (position [] 11 13)),
                    (''description'', NewValue (DString ''my job'') (position [] 12 20))])
                   (position [] 10 13))])
               (position [] 9 11))])
           (position [] 8 9))])
       (position [] 1 1)"

definition mergedDocument :: Value where
  "mergedDocument =
     NewValue (DMap
       [(''experimental'', pydabsSection ''databricks.yml''),
        (''resources'', NewValue (DMap
           [(''jobs'', NewValue (DMap
               [(''job0'', NewValue (DMap
                   [(''name'', NewValue (DString ''job_0'') (position ''databricks.yml'' 9 19)),
                    (''description'', NewValue (DString ''my job'')
                       (position ''/project/__generated_by_pydabs__.yml'' 12 20))])
                   (position ''databricks.yml'' 9 13))])
               (position ''databricks.yml'' 8 11))])
           (position ''databricks.yml'' 7 9))])
       (position ''databricks.yml'' 2 7)"

definition fileAt :: "Value \<Rightarrow> Path \<Rightarrow> string option" where
  "fileAt v p = (case GetByPath v p of None \<Rightarrow> None | Some x \<Rightarrow> Some (File (Location x)))"

section \<open>The detector of conflicting resource names\<close>

text \<open>
  Modelled from the spec: the detector is not among the source files (its tests are, in
  \<^verbatim>\<open>conflicting_resource_ids_test.go\<close>). The spec, section 4.6: across every loaded file
  (the top-level file and the included files) it builds a mapping from entity name to the
  set of pairs of entity kind and Location under which the name was declared, whatever
  section held the declaration. If a name maps to more than one pair, loading fails with
  a single error that lists every conflicting occurrence as \<^verbatim>\<open>kind at file:line:column\<close>,
  joined by commas, in the order in which the files were scanned. Section 6 gives the
  message. The input is the list of the loaded files in the order of the scan, each the
  list of its declarations. Where several names conflict the spec does not say which is
  reported; the model reports the name declared first.
\<close>

record Declaration =
  entityKind :: string
  entityName :: string
  declaredAt :: Location

datatype loadError = ConflictError string

text \<open>The elements of a list, each once, in the order of their first occurrence.\<close>

function firstOccurrences :: "'a list \<Rightarrow> 'a list" where
  "firstOccurrences [] = []"
| "firstOccurrences (x # xs) = x # firstOccurrences (filter (\<lambda>y. y \<noteq> x) xs)"
  by pat_completeness auto
termination
  by (relation "measure length") (auto simp: less_Suc_eq_le)

definition occurrences :: "string \<Rightarrow> Declaration list \<Rightarrow> (string \<times> Location) list" where
  "occurrences name decls =
     firstOccurrences
       (map (\<lambda>d. (entityKind d, declaredAt d)) (filter (\<lambda>d. entityName d = name) decls))"

definition renderOccurrence :: "string \<times> Location \<Rightarrow> string" where
  "renderOccurrence occ =
     (case occ of (kind, loc) \<Rightarrow>
        kind @ '' at '' @ File loc @ '':'' @ string_of_int (Line loc) @ '':''
          @ string_of_int (Column loc))"

definition conflictMessage :: "string \<Rightarrow> (string \<times> Location) list \<Rightarrow> string" where
  "conflictMessage name occs =
     ''multiple resources named '' @ name @ '' (''
       @ joinWith '', '' (map renderOccurrence occs) @ '')''"

definition conflictingNames :: "Declaration list \<Rightarrow> string list" where
  "conflictingNames decls =
     filter (\<lambda>name. 1 < length (occurrences name decls))
       (firstOccurrences (map entityName decls))"

definition detectConflicts :: "Declaration list list \<Rightarrow> loadError option" where
  "detectConflicts files =
     (let decls = concat files
      in case conflictingNames decls of
           [] \<Rightarrow> None
         | name # others \<Rightarrow> Some (ConflictError (conflictMessage name (occurrences name decls))))"

text \<open>
  The files of the test \<^verbatim>\<open>TestConflictingResourceIdsOneSubconfig\<close>: a job and a pipeline
  of the same name, in the top-level file and in an included file.
\<close>

definition conflictExample :: "Declaration list list" where
  "conflictExample =
     [[\<lparr> entityKind = ''job'', entityName = ''foo'',
          declaredAt = position ''conflicting_resource_ids/one_subconfiguration/databricks.yml'' 13 7 \<rparr>],
      [\<lparr> entityKind = ''pipeline'', entityName = ''foo'',
          declaredAt = position ''conflicting_resource_ids/one_subconfiguration/resources.yml'' 4 7 \<rparr>]]"

section \<open>Paths: facts\<close>

lemma HasPrefix_iff_prefix: "HasPrefix p q \<longleftrightarrow> prefix q p"
  by (induction p q rule: HasPrefix.induct) auto

lemma HasPrefix_jobsPath:
  "HasPrefix p jobsPath \<longleftrightarrow> (\<exists>rest. p = Key ''resources'' # Key ''jobs'' # rest)"
  by (auto simp: HasPrefix_iff_prefix jobsPath_def NewPath_def prefix_def)

lemma length_jobsPath: "length jobsPath = 2"
  by (simp add: jobsPath_def NewPath_def)

lemma HasPrefix_jobsPath_self: "HasPrefix jobsPath jobsPath"
  by (simp add: HasPrefix_iff_prefix)

lemma String_job0: "String [Key ''resources'', Key ''jobs'', Key ''job0''] = ''resources.jobs.job0''"
  by (simp add: String_def)

lemma String_job0_name:
  "String [Key ''resources'', Key ''jobs'', Key ''job0'', Key ''name''] = ''resources.jobs.job0.name''"
  by (simp add: String_def)

lemma String_include0: "String [Key ''include'', Index 0] = ''include[0]''"
  by (simp add: String_def string_of_int_def)

section \<open>The load-phase visitor\<close>

text \<open>
  Claim C1. For the visitor of the load phase: \<^verbatim>\<open>VisitDelete\<close> returns an error at every
  path, \<^verbatim>\<open>VisitUpdate\<close> returns an error at every path, and \<^verbatim>\<open>VisitInsert\<close> at a path
  \<open>p\<close> returns the inserted value exactly when \<open>p\<close> has the prefix \<^verbatim>\<open>resources.jobs\<close> and
  is one component longer than it. Every rejection is the error
  \<^verbatim>\<open>unexpected change at <path> (<operation>)\<close>, with the rendering of the path at hand and
  the kind of the operation.
\<close>

theorem load_visitor_policy:
  fixes left right :: 'v
  shows "VisitDelete createLoadOverrideVisitor p left
           = Some (Errorf ''unexpected change at %q (delete)'' [Q (String p)])
       \<and> VisitUpdate createLoadOverrideVisitor p left right
           = Inl (Errorf ''unexpected change at %q (update)'' [Q (String p)])
       \<and> (VisitInsert createLoadOverrideVisitor p right = Inr right
            \<longleftrightarrow> HasPrefix p jobsPath \<and> length p = length jobsPath + 1)
       \<and> (\<not> (HasPrefix p jobsPath \<and> length p = length jobsPath + 1)
            \<longrightarrow> VisitInsert createLoadOverrideVisitor p right
                 = Inl (Errorf ''unexpected change at %q (insert)'' [Q (String p)]))"
  by (simp add: createLoadOverrideVisitor_def unexpectedDelete_def unexpectedUpdate_def
      unexpectedInsert_def)

theorem load_visitor_policy_witness:
  "VisitInsert createLoadOverrideVisitor [Key ''resources'', Key ''jobs'', Key ''job0''] (1337::int)
     = Inr 1337
   \<and> VisitInsert createLoadOverrideVisitor
        [Key ''resources'', Key ''jobs'', Key ''job0'', Key ''name''] (1337::int)
     = Inl (Errorf ''unexpected change at %q (insert)'' [Q ''resources.jobs.job0.name''])
   \<and> VisitDelete createLoadOverrideVisitor [Key ''resources'', Key ''jobs'', Key ''job0''] (42::int)
     = Some (Errorf ''unexpected change at %q (delete)'' [Q ''resources.jobs.job0''])
   \<and> VisitUpdate createLoadOverrideVisitor [Key ''include'', Index 0] (42::int) 1337
     = Inl (Errorf ''unexpected change at %q (update)'' [Q ''include[0]''])"
  using load_visitor_policy [of "[Key ''resources'', Key ''jobs'', Key ''job0'']" "42::int" 1337]
    load_visitor_policy [of "[Key ''resources'', Key ''jobs'', Key ''job0'', Key ''name'']" "42::int" 1337]
    load_visitor_policy [of "[Key ''include'', Index 0]" "42::int" 1337]
  by (simp add: String_job0 String_job0_name String_include0 jobsPath_def NewPath_def)

section \<open>The init-phase visitor\<close>

text \<open>
  Claim C2. For the visitor of the init phase: at a path without the prefix
  \<^verbatim>\<open>resources.jobs\<close>, \<^verbatim>\<open>VisitDelete\<close>, \<^verbatim>\<open>VisitUpdate\<close> and \<^verbatim>\<open>VisitInsert\<close> each return
  an error; \<^verbatim>\<open>VisitDelete\<close> at a path one component below \<^verbatim>\<open>resources.jobs\<close> (a whole
  entry) returns an error; \<^verbatim>\<open>VisitDelete\<close> and \<^verbatim>\<open>VisitUpdate\<close> at a path more than one
  component below \<^verbatim>\<open>resources.jobs\<close> succeed; \<^verbatim>\<open>VisitInsert\<close> at every path with the
  prefix \<^verbatim>\<open>resources.jobs\<close> succeeds.
\<close>

theorem init_visitor_policy:
  fixes left right :: 'v
  shows "(\<not> HasPrefix p jobsPath \<longrightarrow>
            VisitDelete createInitOverrideVisitor p left
              = Some (Errorf ''unexpected change at %q (delete)'' [Q (String p)])
          \<and> VisitUpdate createInitOverrideVisitor p left right
              = Inl (Errorf ''unexpected change at %q (update)'' [Q (String p)])
          \<and> VisitInsert createInitOverrideVisitor p right
              = Inl (Errorf ''unexpected change at %q (insert)'' [Q (String p)]))
       \<and> (HasPrefix p jobsPath \<and> length p = length jobsPath + 1 \<longrightarrow>
            VisitDelete createInitOverrideVisitor p left
              = Some (Errorf ''unexpected change at %q (delete)'' [Q (String p)]))
       \<and> (HasPrefix p jobsPath \<and> length jobsPath + 1 < length p \<longrightarrow>
            VisitDelete createInitOverrideVisitor p left = None
          \<and> VisitUpdate createInitOverrideVisitor p left right = Inr right)
       \<and> (HasPrefix p jobsPath \<longrightarrow>
            VisitInsert createInitOverrideVisitor p right = Inr right)"
  by (simp add: createInitOverrideVisitor_def unexpectedDelete_def unexpectedUpdate_def
      unexpectedInsert_def)

theorem init_visitor_policy_witness:
  "VisitDelete createInitOverrideVisitor [Key ''include'', Index 0] (42::int)
     = Some (Errorf ''unexpected change at %q (delete)'' [Q ''include[0]''])
   \<and> VisitUpdate createInitOverrideVisitor [Key ''include'', Index 0] (42::int) 1337
     = Inl (Errorf ''unexpected change at %q (update)'' [Q ''include[0]''])
   \<and> VisitInsert createInitOverrideVisitor [Key ''include'', Index 0] (1337::int)
     = Inl (Errorf ''unexpected change at %q (insert)'' [Q ''include[0]''])
   \<and> VisitDelete createInitOverrideVisitor [Key ''resources'', Key ''jobs'', Key ''job0''] (42::int)
     = Some (Errorf ''unexpected change at %q (delete)'' [Q ''resources.jobs.job0''])
   \<and> VisitInsert createInitOverrideVisitor [Key ''resources'', Key ''jobs'', Key ''job0''] (1337::int)
     = Inr 1337
   \<and> VisitDelete createInitOverrideVisitor
        [Key ''resources'', Key ''jobs'', Key ''job0'', Key ''name''] (42::int) = None
   \<and> VisitUpdate createInitOverrideVisitor
        [Key ''resources'', Key ''jobs'', Key ''job0'', Key ''name''] (42::int) 1337 = Inr 1337
   \<and> VisitInsert createInitOverrideVisitor
        [Key ''resources'', Key ''jobs'', Key ''job0'', Key ''name''] (1337::int) = Inr 1337"
  using init_visitor_policy [of "[Key ''include'', Index 0]" "42::int" 1337]
    init_visitor_policy [of "[Key ''resources'', Key ''jobs'', Key ''job0'']" "42::int" 1337]
    init_visitor_policy [of "[Key ''resources'', Key ''jobs'', Key ''job0'', Key ''name'']" "42::int" 1337]
  by (simp add: String_job0 String_include0 jobsPath_def NewPath_def)

text \<open>
  Claim C10. The \<^verbatim>\<open>VisitDelete\<close> of the init-phase visitor returns nil at the path
  \<^verbatim>\<open>resources.jobs\<close> itself: the rejection of a whole entry is for paths exactly one
  component longer than the root, so the deletion of the whole collection of jobs is not
  rejected. In general it returns nil exactly at the paths with the prefix
  \<^verbatim>\<open>resources.jobs\<close> whose length is not that of the root plus one.
\<close>

theorem init_delete_of_root_permitted:
  fixes left :: 'v
  shows "VisitDelete createInitOverrideVisitor jobsPath left = None
       \<and> (VisitDelete createInitOverrideVisitor p left = None
            \<longleftrightarrow> HasPrefix p jobsPath \<and> length p \<noteq> length jobsPath + 1)"
  by (simp add: createInitOverrideVisitor_def HasPrefix_jobsPath_self)

theorem init_delete_of_root_permitted_witness:
  "VisitDelete createInitOverrideVisitor [Key ''resources'', Key ''jobs''] (42::int) = None"
  using init_delete_of_root_permitted [of "42::int" "[]"]
  by (simp add: jobsPath_def NewPath_def)

section \<open>Strict validation of a configuration\<close>

lemma validateEntries_None_iff:
  "validateEntries validators schema config = None \<longleftrightarrow>
     (\<forall>(k, v) \<in> set config. \<exists>fm. map_of (Properties schema) k = Some fm
          \<and> validateType validators v (Type fm) = None)"
  by (induction config) (auto split: option.splits)

lemma map_of_Some_iff_key: "(\<exists>v. map_of xs k = Some v) \<longleftrightarrow> k \<in> fst ` set xs"
  using map_of_eq_None_iff [of xs k] by auto

lemma assertDefined_None_iff:
  "assertDefined config props = None \<longleftrightarrow> fst ` set props \<subseteq> fst ` set config"
proof (induction props)
  case Nil
  show ?case by simp
next
  case (Cons kp props)
  obtain k p where kp: "kp = (k, p)" by (cases kp)
  show ?case
  proof (cases "map_of config k")
    case None
    then have "k \<notin> fst ` set config" by (simp add: map_of_eq_None_iff)
    with None kp show ?thesis by simp
  next
    case (Some v)
    then have "k \<in> fst ` set config" using map_of_Some_iff_key [of config k] by blast
    with Some kp Cons.IH show ?thesis by simp
  qed
qed

lemma ValidateConfig_None_iff:
  "ValidateConfig validators schema config = None \<longleftrightarrow>
     fst ` set config = fst ` set (Properties schema)
     \<and> (\<forall>(k, v) \<in> set config. \<forall>fm. map_of (Properties schema) k = Some fm
           \<longrightarrow> validateType validators v (Type fm) = None)"
  (is "?lhs \<longleftrightarrow> ?keys \<and> ?vals")
proof
  assume l: ?lhs
  then have ve: "validateEntries validators schema config = None"
    and ad: "assertDefined config (Properties schema) = None"
    by (auto simp: ValidateConfig_def split: option.splits)
  from ve have 1: "\<forall>(k, v) \<in> set config. \<exists>fm. map_of (Properties schema) k = Some fm
          \<and> validateType validators v (Type fm) = None"
    by (simp add: validateEntries_None_iff)
  then have "fst ` set config \<subseteq> fst ` set (Properties schema)"
    using map_of_Some_iff_key [of "Properties schema"] by fastforce
  moreover from ad have "fst ` set (Properties schema) \<subseteq> fst ` set config"
    by (simp add: assertDefined_None_iff)
  moreover from 1 have ?vals by fastforce
  ultimately show "?keys \<and> ?vals" by blast
next
  assume r: "?keys \<and> ?vals"
  have "\<forall>(k, v) \<in> set config. \<exists>fm. map_of (Properties schema) k = Some fm
          \<and> validateType validators v (Type fm) = None"
  proof (clarify)
    fix k v assume kv: "(k, v) \<in> set config"
    then have "k \<in> fst ` set (Properties schema)" using r by force
    then obtain fm where "map_of (Properties schema) k = Some fm"
      using map_of_Some_iff_key [of "Properties schema" k] by blast
    with kv r show "\<exists>fm. map_of (Properties schema) k = Some fm
          \<and> validateType validators v (Type fm) = None" by fastforce
  qed
  then have "validateEntries validators schema config = None"
    by (simp add: validateEntries_None_iff)
  moreover have "assertDefined config (Properties schema) = None"
    using r by (simp add: assertDefined_None_iff)
  ultimately show ?lhs by (simp add: ValidateConfig_def)
qed

lemma validateType_None_iff:
  "validateType validators v fieldType = None
     \<longleftrightarrow> (\<forall>f. validators fieldType = Some f \<longrightarrow> f v = None)"
  by (simp add: validateType_def split: option.splits)

text \<open>
  Claim C4. \<^verbatim>\<open>Schema.ValidateConfig\<close> fails whenever the configuration has a key that the
  schema's properties do not declare, fails whenever the schema declares a property that
  the configuration lacks, and fails whenever the table of validators has a validator for
  the declared type of a key and that validator rejects the value of the key. It succeeds
  only when the keys of the configuration are the keys of the schema and every value
  passes the validator that the table has for its declared type (a type without a
  validator admits every value); and then it does succeed. This holds for every order in
  which the two maps are traversed and for every table of validators.
\<close>

theorem ValidateConfig_strict:
  "(k \<in> fst ` set config \<and> k \<notin> fst ` set (Properties schema)
      \<longrightarrow> ValidateConfig validators schema config \<noteq> None)
   \<and> (k \<in> fst ` set (Properties schema) \<and> k \<notin> fst ` set config
      \<longrightarrow> ValidateConfig validators schema config \<noteq> None)
   \<and> ((k, v) \<in> set config \<and> map_of (Properties schema) k = Some fm
        \<and> validators (Type fm) = Some f \<and> f v \<noteq> None
      \<longrightarrow> ValidateConfig validators schema config \<noteq> None)
   \<and> (ValidateConfig validators schema config = None \<longleftrightarrow>
        fst ` set config = fst ` set (Properties schema)
        \<and> (\<forall>(k, v) \<in> set config. \<forall>fm f. map_of (Properties schema) k = Some fm
              \<and> validators (Type fm) = Some f \<longrightarrow> f v = None))"
proof -
  have iff: "ValidateConfig validators schema config = None \<longleftrightarrow>
        fst ` set config = fst ` set (Properties schema)
        \<and> (\<forall>(k, v) \<in> set config. \<forall>fm f. map_of (Properties schema) k = Some fm
              \<and> validators (Type fm) = Some f \<longrightarrow> f v = None)"
    unfolding ValidateConfig_None_iff validateType_None_iff by auto
  have 1: "k \<in> fst ` set config \<and> k \<notin> fst ` set (Properties schema)
      \<longrightarrow> ValidateConfig validators schema config \<noteq> None"
    unfolding iff by blast
  have 2: "k \<in> fst ` set (Properties schema) \<and> k \<notin> fst ` set config
      \<longrightarrow> ValidateConfig validators schema config \<noteq> None"
    unfolding iff by blast
  have 3: "(k, v) \<in> set config \<and> map_of (Properties schema) k = Some fm
        \<and> validators (Type fm) = Some f \<and> f v \<noteq> None
      \<longrightarrow> ValidateConfig validators schema config \<noteq> None"
    unfolding iff by fastforce
  from 1 2 3 iff show ?thesis by (intro conjI)
qed

theorem ValidateConfig_strict_witness:
  "ValidateConfig kindValidators exampleSchema
      [(''name'', AString ''x''), (''count'', AInt 3), (''extra'', ABool True)] \<noteq> None
   \<and> ValidateConfig kindValidators exampleSchema [(''name'', AString ''x'')] \<noteq> None
   \<and> ValidateConfig kindValidators exampleSchema
      [(''count'', AString ''3''), (''name'', AString ''x'')] \<noteq> None
   \<and> ValidateConfig kindValidators exampleSchema
      [(''count'', AInt 3), (''name'', AString ''x'')] = None"
proof -
  let ?integer = "\<lambda>v. case v of AInt i \<Rightarrow> None | _ \<Rightarrow> Some (expectedType ''integer'' v)"
  have undeclared: "''extra'' \<in> fst ` set [(''name'', AString ''x''), (''count'', AInt 3),
        (''extra'', ABool True)] \<and> ''extra'' \<notin> fst ` set (Properties exampleSchema)"
    by (simp add: exampleSchema_def)
  have missing: "''count'' \<in> fst ` set (Properties exampleSchema)
      \<and> ''count'' \<notin> fst ` set [(''name'', AString ''x'')]"
    by (simp add: exampleSchema_def)
  have wrong: "(''count'', AString ''3'') \<in> set [(''count'', AString ''3''), (''name'', AString ''x'')]
      \<and> map_of (Properties exampleSchema) ''count''
          = Some \<lparr> Type = PropertyTypeInt, Description = ''how many'' \<rparr>
      \<and> kindValidators (Type \<lparr> Type = PropertyTypeInt, Description = ''how many'' \<rparr>)
          = Some ?integer
      \<and> ?integer (AString ''3'') \<noteq> None"
    by (simp add: exampleSchema_def kindValidators_def PropertyTypeString_def PropertyTypeInt_def)
  have keys: "fst ` set [(''count'', AInt 3), (''name'', AString ''x'')]
      = fst ` set (Properties exampleSchema)"
    by (auto simp: exampleSchema_def)
  have vals: "\<forall>(k, v) \<in> set [(''count'', AInt 3), (''name'', AString ''x'')].
      \<forall>fm f. map_of (Properties exampleSchema) k = Some fm
        \<and> kindValidators (Type fm) = Some f \<longrightarrow> f v = None"
    by (auto simp: exampleSchema_def kindValidators_def PropertyTypeString_def PropertyTypeInt_def)
  note c1 = ValidateConfig_strict [THEN conjunct1, THEN mp, OF undeclared]
  note c2 = ValidateConfig_strict [THEN conjunct2, THEN conjunct1, THEN mp, OF missing]
  note c3 = ValidateConfig_strict [where f = "?integer" and v = "AString ''3''"
      and validators = kindValidators and schema = exampleSchema and k = "''count''"
      and fm = "\<lparr> Type = PropertyTypeInt, Description = ''how many'' \<rparr>"
      and config = "[(''count'', AString ''3''), (''name'', AString ''x'')]",
      THEN conjunct2, THEN conjunct2, THEN conjunct1, THEN mp, OF wrong]
  note c4 = ValidateConfig_strict [THEN conjunct2, THEN conjunct2, THEN conjunct2, THEN iffD2,
      OF conjI, OF keys vals]
  from c1 c2 c3 c4 show ?thesis by (intro conjI)
qed

section \<open>Conversions between floats and integers: facts\<close>

lemma bitlen_le_53: "\<bar>m\<bar> < 2 ^ 53 \<Longrightarrow> bitlen \<bar>m\<bar> \<le> 53"
  by (simp add: bitlen_le_iff_power)

lemma intToFloat64_small: "\<bar>i\<bar> < 2 ^ 53 \<Longrightarrow> intToFloat64 i = Finite i 0"
  using bitlen_le_53 [of i] by (simp add: intToFloat64_def Let_def)

text \<open>The integer that a float with a non-negative exponent denotes.\<close>

lemma intToFloat64_exact:
  assumes m: "\<bar>m\<bar> < 2 ^ 53"
  shows "\<exists>n f. intToFloat64 (m * 2 ^ e) = Finite n (int f) \<and> n * 2 ^ f = m * 2 ^ e"
proof (cases "m = 0")
  case True
  then show ?thesis by (simp add: intToFloat64_small)
next
  case False
  define i where "i = m * 2 ^ e"
  define a where "a = \<bar>i\<bar>"
  define k where "k = nat (bitlen a - 53)"
  have a: "a = \<bar>m\<bar> * 2 ^ e" by (simp add: a_def i_def abs_mult)
  have "bitlen a = bitlen \<bar>m\<bar> + int e" using False by (simp add: a)
  then have kle: "k \<le> e" using bitlen_le_53 [OF m] by (simp add: k_def)
  then have dvd: "(2::int) ^ k dvd a" by (simp add: a le_imp_power_dvd)
  show ?thesis
  proof (cases "k = 0")
    case True
    then have "intToFloat64 i = Finite i 0" by (simp add: intToFloat64_def Let_def k_def a_def)
    then show ?thesis unfolding i_def by (intro exI [of _ "m * 2 ^ e"] exI [of _ 0]) simp
  next
    case kpos: False
    have r0: "a mod 2 ^ k = 0" using dvd by simp
    have h: "(0::int) < 2 ^ (k - 1)" by simp
    have "intToFloat64 i = Finite (sgn i * (a div 2 ^ k)) (int k)"
      using kpos r0 h unfolding intToFloat64_def Let_def a_def [symmetric] k_def [symmetric]
      by simp
    moreover have "sgn i * (a div 2 ^ k) * 2 ^ k = i"
      using dvd by (simp add: a_def mult.assoc mult_sgn_abs)
    ultimately show ?thesis unfolding i_def by blast
  qed
qed

lemma float64Eq_nonneg_exps:
  "float64Eq (Finite m (int e)) (Finite n (int f)) \<longleftrightarrow> m * 2 ^ e = n * 2 ^ f"
proof -
  define d where "d = min e f"
  have e: "e = (e - d) + d" and f: "f = (f - d) + d" by (simp_all add: d_def)
  have "float64Eq (Finite m (int e)) (Finite n (int f))
      \<longleftrightarrow> m * 2 ^ (e - d) = n * 2 ^ (f - d)"
    by (simp add: Let_def d_def min_def nat_diff_distrib')
  also have "\<dots> \<longleftrightarrow> m * 2 ^ (e - d) * 2 ^ d = n * 2 ^ (f - d) * 2 ^ d"
    by simp
  also have "\<dots> \<longleftrightarrow> m * 2 ^ e = n * 2 ^ f"
    using e f by (metis (no_types, lifting) mult.assoc power_add)
  finally show ?thesis .
qed

lemma float64Eq_neg_exp:
  assumes "e < 0"
  shows "float64Eq (Finite m e) (Finite i 0) \<longleftrightarrow> m = i * 2 ^ nat (- e)"
  using assms by (simp add: Let_def min_def)

lemma trunc_div_times:
  fixes m p :: int
  assumes "0 < p"
  shows "m = sgn m * (\<bar>m\<bar> div p) * p \<longleftrightarrow> p dvd m"
proof
  assume "m = sgn m * (\<bar>m\<bar> div p) * p"
  then show "p dvd m" by (metis dvd_triv_right)
next
  assume "p dvd m"
  then have "p dvd \<bar>m\<bar>" by simp
  then have "\<bar>m\<bar> div p * p = \<bar>m\<bar>" by simp
  then have "sgn m * (\<bar>m\<bar> div p) * p = sgn m * \<bar>m\<bar>" by (simp add: mult.assoc)
  then show "m = sgn m * (\<bar>m\<bar> div p) * p" by (simp add: mult_sgn_abs)
qed

lemma trunc_abs_le:
  fixes m p :: int
  assumes "0 < p"
  shows "\<bar>sgn m * (\<bar>m\<bar> div p)\<bar> \<le> \<bar>m\<bar>"
proof -
  have "\<bar>m\<bar> div p \<le> \<bar>m\<bar>"
    by (cases "m = 0") (simp_all add: int_div_le_self)
  moreover have "0 \<le> \<bar>m\<bar> div p" using assms by (simp add: pos_imp_zdiv_nonneg_iff)
  ultimately show ?thesis by (simp add: abs_mult abs_sgn_eq)
qed

lemma isIntegerValue_in_range:
  assumes m: "\<bar>m\<bar> < 2 ^ 53"
    and t: "integralPart (Finite m e) = Some i"
    and r: "inInt64 i"
  shows "float64ToInt impl (Finite m e) = i"
    and "isIntegerValue impl (Finite m e) \<longleftrightarrow> fracZero (Finite m e)"
proof -
  show c: "float64ToInt impl (Finite m e) = i"
    using t r by (simp add: float64ToInt_def)
  show "isIntegerValue impl (Finite m e) \<longleftrightarrow> fracZero (Finite m e)"
  proof (cases "0 \<le> e")
    case True
    then have i: "i = m * 2 ^ nat e" using t by simp
    obtain n f where nf: "intToFloat64 (m * 2 ^ nat e) = Finite n (int f)"
      "n * 2 ^ f = m * 2 ^ nat e"
      using intToFloat64_exact [OF m, of "nat e"] by blast
    have "float64Eq (Finite m (int (nat e))) (Finite n (int f))"
      using nf(2) by (simp only: float64Eq_nonneg_exps)
    then have "isIntegerValue impl (Finite m e)"
      using True c i nf(1) by (simp add: isIntegerValue_def)
    with True show ?thesis by simp
  next
    case False
    define p :: int where "p = 2 ^ nat (- e)"
    have p: "0 < p" by (simp add: p_def)
    from False have i: "i = sgn m * (\<bar>m\<bar> div p)" using t by (simp add: p_def)
    have "\<bar>i\<bar> \<le> \<bar>m\<bar>" unfolding i by (rule trunc_abs_le [OF p])
    with m have "\<bar>i\<bar> < 2 ^ 53" by linarith
    then have "intToFloat64 i = Finite i 0" by (rule intToFloat64_small)
    then have "isIntegerValue impl (Finite m e) \<longleftrightarrow> m = i * p"
      using False c by (simp add: isIntegerValue_def float64Eq_neg_exp p_def)
    also have "\<dots> \<longleftrightarrow> p dvd m" unfolding i by (rule trunc_div_times [OF p])
    finally show ?thesis using False by (simp add: p_def)
  qed
qed

lemma sint64_range: "inInt64 (sint (w :: 64 word))"
  using sint_ge [of w] sint_lt [of w] by (simp add: inInt64_def)

lemma intToFloat64_bound:
  assumes "inInt64 j"
  shows "\<exists>n f. intToFloat64 j = Finite n (int f) \<and> \<bar>n\<bar> * 2 ^ f \<le> 2 ^ 63"
proof -
  define a where "a = \<bar>j\<bar>"
  define k where "k = nat (bitlen a - 53)"
  have a63: "a \<le> 2 ^ 63" using assms by (auto simp: inInt64_def a_def)
  show ?thesis
  proof (cases "k = 0")
    case True
    then have "intToFloat64 j = Finite j 0"
      by (simp add: intToFloat64_def Let_def k_def a_def)
    with a63 show ?thesis unfolding a_def by (intro exI [of _ j] exI [of _ 0]) simp
  next
    case kpos: False
    then have bl: "bitlen a = 53 + int k" by (simp add: k_def)
    then have apos: "0 < a" using bitlen_eq_zero_iff [of a] by auto
    then have jnz: "j \<noteq> 0" by (simp add: a_def)
    define q where "q = a div 2 ^ k"
    define r where "r = a mod 2 ^ k"
    define q' where "q' = (if 2 ^ (k - 1) < r \<or> (r = 2 ^ (k - 1) \<and> odd q) then q + 1 else q)"
    have eq: "intToFloat64 j = Finite (sgn j * q') (int k)"
      using kpos unfolding intToFloat64_def Let_def a_def [symmetric] k_def [symmetric]
        q_def [symmetric] r_def [symmetric] q'_def by simp
    have q0: "0 \<le> q" using apos by (simp add: q_def pos_imp_zdiv_nonneg_iff)
    have abs: "\<bar>sgn j * q'\<bar> = q'" using jnz q0 by (simp add: abs_mult q'_def)
    have "a < 2 ^ nat (bitlen a)" using bitlen_bounds [OF apos] by simp
    then have alt: "a < 2 ^ 53 * 2 ^ k" by (simp add: bl nat_add_distrib power_add)
    have "q < 2 ^ 53"
    proof (rule ccontr)
      assume "\<not> q < 2 ^ 53"
      then have "2 ^ 53 * 2 ^ k \<le> q * 2 ^ k" by simp
      also have "\<dots> \<le> q * 2 ^ k + r" by (simp add: r_def)
      also have "\<dots> = a" by (simp only: q_def r_def div_mult_mod_eq)
      finally show False using alt by simp
    qed
    then have q'le: "q' \<le> 2 ^ 53" by (simp add: q'_def)
    show ?thesis
    proof (cases "a = 2 ^ 63")
      case True
      have "bitlen a = 64" unfolding True using bitlen_twopow_add_eq [of 0 63] by simp
      then have k11: "k = 11" by (simp add: k_def)
      have "q = 2 ^ 52" "r = 0" by (simp_all add: q_def r_def True k11)
      then have "q' = 2 ^ 52" by (simp add: q'_def k11)
      with eq abs k11 show ?thesis by (intro exI [of _ "sgn j * q'"] exI [of _ k]) simp
    next
      case False
      with a63 have "a < 2 ^ 63" by simp
      then have "bitlen a \<le> 63" by (simp add: bitlen_le_iff_power)
      then have k10: "k \<le> 10" using bl by simp
      have "q' * 2 ^ k \<le> 2 ^ 53 * 2 ^ k" using q'le by simp
      also have "\<dots> = 2 ^ (53 + k)" by (simp add: power_add)
      also have "\<dots> \<le> (2::int) ^ 63" using k10 by (intro power_increasing) simp_all
      finally have "q' * 2 ^ k \<le> 2 ^ 63" .
      with eq abs show ?thesis by (intro exI [of _ "sgn j * q'"] exI [of _ k]) simp
    qed
  qed
qed

lemma isIntegerValue_out_of_range:
  assumes m: "\<bar>m\<bar> < 2 ^ 53"
    and t: "integralPart (Finite m e) = Some i"
    and r: "\<not> inInt64 i"
    and ne: "i \<noteq> 2 ^ 63"
  shows "\<not> isIntegerValue impl (Finite m e)"
proof
  assume iv: "isIntegerValue impl (Finite m e)"
  have big: "2 ^ 63 < \<bar>i\<bar>" using r ne by (auto simp: inInt64_def)
  have e0: "0 \<le> e"
  proof (rule ccontr)
    assume "\<not> 0 \<le> e"
    then have "i = sgn m * (\<bar>m\<bar> div 2 ^ nat (- e))" using t by simp
    then have "\<bar>i\<bar> \<le> \<bar>m\<bar>" using trunc_abs_le [of "2 ^ nat (- e)" m] by simp
    with m big show False by simp
  qed
  then have i: "i = m * 2 ^ nat e" using t by simp
  define j where "j = sint (impl (Finite m e))"
  have c: "float64ToInt impl (Finite m e) = j" using t r by (simp add: float64ToInt_def j_def)
  obtain n f where nf: "intToFloat64 j = Finite n (int f)" "\<bar>n\<bar> * 2 ^ f \<le> 2 ^ 63"
    using intToFloat64_bound [OF sint64_range, of "impl (Finite m e)"] unfolding j_def by blast
  from iv c nf(1) have "float64Eq (Finite m (int (nat e))) (Finite n (int f))"
    using e0 by (simp add: isIntegerValue_def)
  then have "m * 2 ^ nat e = n * 2 ^ f" by (simp only: float64Eq_nonneg_exps)
  then have "\<bar>i\<bar> = \<bar>n\<bar> * 2 ^ f" by (simp add: i abs_mult)
  with nf(2) big show False by simp
qed

lemma intToFloat64_Finite: "\<exists>n f. intToFloat64 j = Finite n f"
  by (simp add: intToFloat64_def Let_def)

lemma isIntegerValue_special:
  assumes "integralPart v = None"
  shows "\<not> isIntegerValue impl v"
proof -
  obtain n f where "intToFloat64 (float64ToInt impl v) = Finite n f"
    using intToFloat64_Finite by blast
  with assms show ?thesis by (cases v) (simp_all add: isIntegerValue_def)
qed

lemma isIntegerValue_iff:
  assumes v: "isFloat64 v" and ne: "integralPart v \<noteq> Some (2 ^ 63)"
  shows "isIntegerValue impl v \<longleftrightarrow> (\<exists>i. integerValued v i \<and> inInt64 i)"
proof (cases v)
  case (Finite m e)
  then have m: "\<bar>m\<bar> < 2 ^ 53" using v by simp
  obtain i where i: "integralPart (Finite m e) = Some i" by simp
  show ?thesis
  proof (cases "inInt64 i")
    case True
    from isIntegerValue_in_range(2) [OF m i True, of impl] i True Finite
    show ?thesis by (auto simp: integerValued_def)
  next
    case False
    from ne i Finite have "i \<noteq> 2 ^ 63" by simp
    from isIntegerValue_out_of_range [OF m i False this, of impl] i False Finite
    show ?thesis by (auto simp: integerValued_def)
  qed
qed (simp_all add: isIntegerValue_special integerValued_def)

lemma castEntry_float_ok:
  assumes "map_of (Properties schema) k = Some fieldInfo" "Type fieldInfo = PropertyTypeInt"
    and "x = AFloat32 v \<or> x = AFloat64 v"
    and "integerValued v i" "inInt64 i" "isFloat64 v"
  shows "castEntry impl schema k x = Inr (AInt i)"
proof -
  have ne: "integralPart v \<noteq> Some (2 ^ 63)" using assms(4,5) by (auto simp: integerValued_def inInt64_def)
  have "isIntegerValue impl v" using isIntegerValue_iff [OF assms(6) ne] assms(4,5) by blast
  moreover have "float64ToInt impl v = i"
    using assms(4,5) by (simp add: float64ToInt_def integerValued_def)
  ultimately show ?thesis using assms(1,2,3) by (auto simp: castEntry_def)
qed

lemma castEntry_float_bad:
  assumes "map_of (Properties schema) k = Some fieldInfo" "Type fieldInfo = PropertyTypeInt"
    and "x = AFloat32 v \<or> x = AFloat64 v"
    and "\<not> (\<exists>i. integerValued v i \<and> inInt64 i)" "isFloat64 v" "integralPart v \<noteq> Some (2 ^ 63)"
  shows "castEntry impl schema k x = Inl (notAnInteger k x)"
proof -
  have "\<not> isIntegerValue impl v" using isIntegerValue_iff [OF assms(5,6)] assms(4) by blast
  then show ?thesis using assms(1,2,3) by (auto simp: castEntry_def)
qed

lemma castFloatToInt_fst_None_iff:
  "fst (castFloatToInt impl config schema) = None
     \<longleftrightarrow> (\<forall>(k, v) \<in> set config. \<exists>v'. castEntry impl schema k v = Inr v')"
  by (induction config) (auto split: sum.splits prod.splits)

lemma castFloatToInt_result:
  assumes "fst (castFloatToInt impl config schema) = None" "(k, v) \<in> set config"
    and "castEntry impl schema k v = Inr v'"
  shows "(k, v') \<in> set (snd (castFloatToInt impl config schema))"
  using assms by (induction config) (auto split: sum.splits prod.splits)

lemma castFloatToInt_first_failure:
  assumes "\<forall>(k', v') \<in> set pre. \<exists>w. castEntry impl schema k' v' = Inr w"
    and "castEntry impl schema k v = Inl err"
  shows "fst (castFloatToInt impl (pre @ (k, v) # post) schema) = Some err"
  using assms by (induction pre) (auto split: sum.splits prod.splits)

text \<open>
  Claim C3, as amended. Let the schema declare the key \<open>k\<close> an integer, and let the
  configuration hold at \<open>k\<close> a floating-point number \<open>v\<close> (a \<^verbatim>\<open>float32\<close> or a \<^verbatim>\<open>float64\<close>)
  other than \<open>2\<^sup>6\<^sup>3\<close>, where the conversion is left to the implementation. The step of
  \<^verbatim>\<open>castFloatToInt\<close> at \<open>k\<close> puts the integer \<open>i\<close> in place of \<open>v\<close> exactly when \<open>v\<close> is
  finite, has no fractional part, has the value \<open>i\<close>, and \<open>i\<close> is a 64-bit integer. In every
  other case the step is the error \<^verbatim>\<open>expected <k> to have integer value but it is <v>\<close>:
  no value is truncated. For the whole pass: when it returns nil the key holds that
  integer afterwards, and when the entries before \<open>k\<close> pass and \<open>v\<close> is not such an integer
  the pass returns the error for \<open>k\<close> and \<open>v\<close>.
\<close>

theorem castFloatToInt_integer_key:
  assumes decl: "map_of (Properties schema) k = Some fieldInfo"
    "Type fieldInfo = PropertyTypeInt"
    and fl: "x = AFloat32 v \<or> x = AFloat64 v" "isFloat64 v"
    and ne: "integralPart v \<noteq> Some (2 ^ 63)"
  shows "(castEntry impl schema k x = Inr (AInt i) \<longleftrightarrow> integerValued v i \<and> inInt64 i)
       \<and> (\<not> (\<exists>j. integerValued v j \<and> inInt64 j) \<longrightarrow>
            castEntry impl schema k x
              = Inl (Errorf ''expected %s to have integer value but it is %v'' [S k, V x]))
       \<and> ((k, x) \<in> set config \<and> fst (castFloatToInt impl config schema) = None \<longrightarrow>
            (\<exists>j. integerValued v j \<and> inInt64 j
               \<and> (k, AInt j) \<in> set (snd (castFloatToInt impl config schema))))
       \<and> ((\<forall>(k', x') \<in> set pre. \<exists>w. castEntry impl schema k' x' = Inr w)
            \<and> \<not> (\<exists>j. integerValued v j \<and> inInt64 j) \<longrightarrow>
            fst (castFloatToInt impl (pre @ (k, x) # post) schema)
              = Some (Errorf ''expected %s to have integer value but it is %v'' [S k, V x]))"
proof -
  note ok = castEntry_float_ok [OF decl fl(1) _ _ fl(2), of _ impl]
  have bad: "castEntry impl schema k x = Inl (notAnInteger k x)"
    if "\<not> (\<exists>j. integerValued v j \<and> inInt64 j)"
    using castEntry_float_bad [OF decl fl(1) that fl(2) ne] .
  have cases: "(\<exists>j. integerValued v j \<and> inInt64 j \<and> castEntry impl schema k x = Inr (AInt j))
      \<or> (\<not> (\<exists>j. integerValued v j \<and> inInt64 j)
           \<and> castEntry impl schema k x = Inl (notAnInteger k x))"
    using ok bad by blast
  have A: "castEntry impl schema k x = Inr (AInt i) \<longleftrightarrow> integerValued v i \<and> inInt64 i"
  proof
    assume r: "castEntry impl schema k x = Inr (AInt i)"
    with cases obtain j where "integerValued v j" "inInt64 j"
      "castEntry impl schema k x = Inr (AInt j)" by auto
    with r show "integerValued v i \<and> inInt64 i" by simp
  next
    assume "integerValued v i \<and> inInt64 i"
    then show "castEntry impl schema k x = Inr (AInt i)" using ok by blast
  qed
  have B: "\<not> (\<exists>j. integerValued v j \<and> inInt64 j) \<longrightarrow>
      castEntry impl schema k x
        = Inl (Errorf ''expected %s to have integer value but it is %v'' [S k, V x])"
    using bad by (simp add: notAnInteger_def)
  have C: "(k, x) \<in> set config \<and> fst (castFloatToInt impl config schema) = None \<longrightarrow>
      (\<exists>j. integerValued v j \<and> inInt64 j
         \<and> (k, AInt j) \<in> set (snd (castFloatToInt impl config schema)))"
  proof (intro impI, elim conjE)
    assume mem: "(k, x) \<in> set config" and none: "fst (castFloatToInt impl config schema) = None"
    from none mem obtain w where w: "castEntry impl schema k x = Inr w"
      by (auto simp: castFloatToInt_fst_None_iff)
    with cases obtain j where j: "integerValued v j" "inInt64 j"
      "castEntry impl schema k x = Inr (AInt j)" by auto
    from castFloatToInt_result [OF none mem j(3)] j(1,2)
    show "\<exists>j. integerValued v j \<and> inInt64 j
        \<and> (k, AInt j) \<in> set (snd (castFloatToInt impl config schema))" by blast
  qed
  have D: "(\<forall>(k', x') \<in> set pre. \<exists>w. castEntry impl schema k' x' = Inr w)
      \<and> \<not> (\<exists>j. integerValued v j \<and> inInt64 j) \<longrightarrow>
      fst (castFloatToInt impl (pre @ (k, x) # post) schema)
        = Some (Errorf ''expected %s to have integer value but it is %v'' [S k, V x])"
  proof (intro impI, elim conjE)
    assume pre: "\<forall>(k', x') \<in> set pre. \<exists>w. castEntry impl schema k' x' = Inr w"
      and no: "\<not> (\<exists>j. integerValued v j \<and> inInt64 j)"
    from castFloatToInt_first_failure [OF pre bad [OF no]]
    show "fst (castFloatToInt impl (pre @ (k, x) # post) schema)
        = Some (Errorf ''expected %s to have integer value but it is %v'' [S k, V x])"
      by (simp add: notAnInteger_def)
  qed
  from A B C D show ?thesis by (intro conjI)
qed

theorem castFloatToInt_integer_key_witness:
  "castEntry amd64Overflow exampleSchema ''count'' (AFloat64 (Finite 3 0)) = Inr (AInt 3)
   \<and> (''count'', AInt 3) \<in> set (snd (castFloatToInt amd64Overflow
         [(''name'', AString ''n''), (''count'', AFloat64 (Finite 3 0))] exampleSchema))
   \<and> castEntry amd64Overflow exampleSchema ''count'' (AFloat64 (Finite 7 (- 1)))
       = Inl (Errorf ''expected %s to have integer value but it is %v''
               [S ''count'', V (AFloat64 (Finite 7 (- 1)))])
   \<and> fst (castFloatToInt amd64Overflow
         [(''name'', AString ''n''), (''count'', AFloat64 (Finite 7 (- 1)))] exampleSchema)
       = Some (Errorf ''expected %s to have integer value but it is %v''
               [S ''count'', V (AFloat64 (Finite 7 (- 1)))])"
proof -
  define count where "count = \<lparr> Type = PropertyTypeInt, Description = ''how many'' \<rparr>"
  have decl: "map_of (Properties exampleSchema) ''count'' = Some count"
    by (simp add: exampleSchema_def count_def)
  have ty: "Type count = PropertyTypeInt" by (simp add: count_def)
  have name: "castEntry amd64Overflow exampleSchema ''name'' (AString ''n'') = Inr (AString ''n'')"
    by (simp add: castEntry_def exampleSchema_def PropertyTypeInt_def PropertyTypeString_def)
  have three: "integerValued (Finite 3 0) 3 \<and> inInt64 3"
    by (simp add: integerValued_def inInt64_def)
  have half: "\<not> (\<exists>j. integerValued (Finite 7 (- 1)) j \<and> inInt64 j)"
    by (simp add: integerValued_def)
  note good = castFloatToInt_integer_key [OF decl ty disjI2 [OF refl], of "Finite 3 0"
      amd64Overflow 3 "[(''name'', AString ''n''), (''count'', AFloat64 (Finite 3 0))]" "[]" "[]"]
  note bad = castFloatToInt_integer_key [OF decl ty disjI2 [OF refl], of "Finite 7 (- 1)"
      amd64Overflow 3 "[]" "[(''name'', AString ''n'')]" "[]"]
  have g1: "castEntry amd64Overflow exampleSchema ''count'' (AFloat64 (Finite 3 0)) = Inr (AInt 3)"
    using good three by simp
  have "fst (castFloatToInt amd64Overflow
         [(''name'', AString ''n''), (''count'', AFloat64 (Finite 3 0))] exampleSchema) = None"
    by (simp add: name g1)
  then have g2: "(''count'', AInt 3) \<in> set (snd (castFloatToInt amd64Overflow
         [(''name'', AString ''n''), (''count'', AFloat64 (Finite 3 0))] exampleSchema))"
    using good by (auto simp: integerValued_def)
  have b1: "castEntry amd64Overflow exampleSchema ''count'' (AFloat64 (Finite 7 (- 1)))
       = Inl (Errorf ''expected %s to have integer value but it is %v''
               [S ''count'', V (AFloat64 (Finite 7 (- 1)))])"
    using bad half by simp
  have b2: "fst (castFloatToInt amd64Overflow
         [(''name'', AString ''n''), (''count'', AFloat64 (Finite 7 (- 1)))] exampleSchema)
       = Some (Errorf ''expected %s to have integer value but it is %v''
               [S ''count'', V (AFloat64 (Finite 7 (- 1)))])"
    using bad half name by simp
  from g1 g2 b1 b2 show ?thesis by (intro conjI)
qed

text \<open>
  Claim C3 as stated fails: the \<^verbatim>\<open>float64\<close> value \<open>2\<^sup>6\<^sup>4\<close> has no fractional part, and
  \<^verbatim>\<open>castFloatToInt\<close> rejects it, because \<^verbatim>\<open>int(v)\<close> is not the value of \<open>v\<close> when \<open>v\<close> is
  outside the 64-bit integers.
\<close>

theorem castFloatToInt_rejects_large_integer:
  "integerValued (Finite 1 64) (2 ^ 64) \<and> isFloat64 (Finite 1 64)
   \<and> castFloatToInt amd64Overflow [(''count'', AFloat64 (Finite 1 64))] exampleSchema
       = (Some (Errorf ''expected %s to have integer value but it is %v''
                 [S ''count'', V (AFloat64 (Finite 1 64))]),
          [(''count'', AFloat64 (Finite 1 64))])"
proof -
  have "\<not> isIntegerValue amd64Overflow (Finite 1 64)"
    by (rule isIntegerValue_out_of_range [where i = "2 ^ 64"]) (simp_all add: inInt64_def)
  then show ?thesis
    by (simp add: integerValued_def castEntry_def exampleSchema_def notAnInteger_def
        PropertyTypeInt_def PropertyTypeString_def)
qed

section \<open>The Python mutator: when it does nothing\<close>

lemma Apply_failure_keeps_bundle:
  "Apply sys ph b h = (Some err, b', h') \<Longrightarrow> b' = b"
  by (cases b) (auto simp: Apply_def Mutate_def Let_def split: if_splits prod.splits sum.splits)

text \<open>
  Claim C9. When the experimental section is absent or PyDABs is not enabled, \<^verbatim>\<open>Apply\<close>
  returns no diagnostics and leaves the bundle as it is. When PyDABs is enabled and the
  path of the virtual environment is empty, \<^verbatim>\<open>Apply\<close> fails with the error
  \<^verbatim>\<open>"experimental.pydabs.enabled" can only be used when "experimental.pydabs.venv_path" is set\<close>
  and leaves the bundle as it is. In both cases the history of calls is unchanged: no
  file is touched and no process is run.
\<close>

theorem Apply_disabled_or_no_venv:
  \<open>(Experimental (Config b) = None
      \<or> (\<exists>e. Experimental (Config b) = Some e \<and> \<not> Enabled (PyDABs e))
     \<longrightarrow> Apply sys ph b h = (None, b, h))
   \<and> (\<forall>e. Experimental (Config b) = Some e \<and> Enabled (PyDABs e) \<and> VEnvPath (PyDABs e) = []
     \<longrightarrow> Apply sys ph b h =
       (Some (Errorf ''"experimental.pydabs.enabled" can only be used when "experimental.pydabs.venv_path" is set'' []),
        b, h))\<close>
  by (auto simp: Apply_def getExperimental_def venvPathRequired_def)

theorem Apply_disabled_or_no_venv_witness:
  \<open>Apply (exampleSys exampleDocument []) PythonMutatorPhaseLoad (exampleBundle None) []
     = (None, exampleBundle None, [])
   \<and> Apply (exampleSys exampleDocument []) PythonMutatorPhaseLoad
        (exampleBundle (Some \<lparr> PyDABs = \<lparr> Enabled = False, VEnvPath = ''.venv'' \<rparr> \<rparr>)) []
     = (None, exampleBundle (Some \<lparr> PyDABs = \<lparr> Enabled = False, VEnvPath = ''.venv'' \<rparr> \<rparr>), [])
   \<and> Apply (exampleSys exampleDocument []) PythonMutatorPhaseLoad
        (exampleBundle (pydabsEnabled [])) []
     = (Some (Errorf ''"experimental.pydabs.enabled" can only be used when "experimental.pydabs.venv_path" is set'' []),
        exampleBundle (pydabsEnabled []), [])\<close>
  using Apply_disabled_or_no_venv [of "exampleBundle None" "exampleSys exampleDocument []"
      PythonMutatorPhaseLoad "[]"]
    Apply_disabled_or_no_venv [of
      "exampleBundle (Some \<lparr> PyDABs = \<lparr> Enabled = False, VEnvPath = ''.venv'' \<rparr> \<rparr>)"
      "exampleSys exampleDocument []" PythonMutatorPhaseLoad "[]"]
    Apply_disabled_or_no_venv [of "exampleBundle (pydabsEnabled [])"
      "exampleSys exampleDocument []" PythonMutatorPhaseLoad "[]"]
  by (simp add: exampleBundle_def pydabsEnabled_def)

section \<open>The Python mutator: the output of the plugin\<close>

lemma checkNormalized_warning:
  assumes "d \<in> set ds" "Severity d = Warning"
  shows "checkNormalized (normalized, ds) =
     Inl (case diagError ds of
            Some err \<Rightarrow> Errorf ''failed to normalize Python mutator output: %w'' [W err]
          | None \<Rightarrow> Errorf ''failed to normalize Python mutator output: %s''
                     [S (Summary (hd (Filter Warning ds)))])"
proof -
  from assms have "d \<in> set (Filter Warning ds)" by (simp add: Filter_def)
  then obtain w ws where "Filter Warning ds = w # ws" by (cases "Filter Warning ds") auto
  then show ?thesis by (simp add: checkNormalized_def split: option.splits)
qed

lemma runPythonMutator_reaches_normalize:
  assumes "Marshal sys (AsAny rootValue) = Inr rootConfigJson"
    and "WriteFile sys h inputPath rootConfigJson = None"
    and "Background sys (h @ [EvWriteFile inputPath rootConfigJson]) args rootPath = None"
    and "Open sys (h @ [EvWriteFile inputPath rootConfigJson, EvBackground args rootPath]) outputPath
           = Inr outputFile"
    and "Abs sys (h @ [EvWriteFile inputPath rootConfigJson, EvBackground args rootPath,
             EvOpen outputPath]) (Join sys [rootPath, ''__generated_by_pydabs__.yml''])
           = Inr virtualPath"
    and "Parse sys outputFile = Inr parsed"
    and "inputPath = Join sys [cacheDir, ''input.json'']"
    and "outputPath = Join sys [cacheDir, ''output.json'']"
    and "args = [pythonPath, ''-m'', ''databricks.bundles.build'', ''--phase'', ph,
                  ''--input'', inputPath, ''--output'', outputPath]"
  shows "runPythonMutator sys ph cacheDir rootPath pythonPath rootValue h =
     (checkNormalized (Normalize sys (withFile virtualPath parsed)),
      h @ [EvWriteFile inputPath rootConfigJson, EvBackground args rootPath, EvOpen outputPath])"
  using assms by (simp add: runPythonMutator_def Let_def LoadYAML_def)

lemma Apply_run_failure:
  assumes "Experimental (Config b) = Some e" "Enabled (PyDABs e)" "VEnvPath (PyDABs e) \<noteq> []"
    and "Stat sys h (interpreterPath sys (VEnvPath (PyDABs e))) = None"
    and "createCacheDir sys (h @ [EvStat (interpreterPath sys (VEnvPath (PyDABs e)))])
           = (Inr cacheDir, h2)"
    and "runPythonMutator sys ph cacheDir (RootPath b) (interpreterPath sys (VEnvPath (PyDABs e)))
           (value (Config b)) h2 = (Inl err, h3)"
  shows "Apply sys ph b h = (Some err, b, h3)"
  using assms by (simp add: Apply_def getExperimental_def Mutate_def applyMutation_def Let_def)

lemma example_paths:
  "unixJoin [''.venv'', ''bin'', ''python3''] = ''.venv/bin/python3''"
  "unixJoin [''/tmp/bundle'', ''default'', ''pydabs''] = ''/tmp/bundle/default/pydabs''"
  "unixJoin [''/tmp/bundle/default/pydabs'', ''input.json'']
     = ''/tmp/bundle/default/pydabs/input.json''"
  "unixJoin [''/tmp/bundle/default/pydabs'', ''output.json'']
     = ''/tmp/bundle/default/pydabs/output.json''"
  "unixJoin [''/project'', ''__generated_by_pydabs__.yml'']
     = ''/project/__generated_by_pydabs__.yml''"
  "unixAbs ''/project'' ''/project/__generated_by_pydabs__.yml''
     = Inr ''/project/__generated_by_pydabs__.yml''"
  by code_simp+

lemma example_run:
  "Apply (exampleSys output ds) ph (exampleBundle (pydabsEnabled ''.venv'')) [] =
     (case checkNormalized (withFile ''/project/__generated_by_pydabs__.yml'' output, ds) of
        Inl err \<Rightarrow> (Some err, exampleBundle (pydabsEnabled ''.venv''), exampleHistory ph)
      | Inr rightRoot \<Rightarrow>
          (case createOverrideVisitor ph of
             Inl err \<Rightarrow> (Some err, exampleBundle (pydabsEnabled ''.venv''), exampleHistory ph)
           | Inr visitor \<Rightarrow>
               (case Override exampleDocument rightRoot visitor of
                  Inl err \<Rightarrow> (Some err, exampleBundle (pydabsEnabled ''.venv''), exampleHistory ph)
                | Inr merged \<Rightarrow>
                    (None, \<lparr> RootPath = ''/project'',
                             Config = \<lparr> Experimental = pydabsEnabled ''.venv'', value = merged \<rparr> \<rparr>,
                     exampleHistory ph))))"
  by (simp add: Apply_def getExperimental_def Mutate_def applyMutation_def Let_def
      exampleSys_def exampleBundle_def pydabsEnabled_def interpreterPath_def createCacheDir_def
      runPythonMutator_def LoadYAML_def example_paths exampleHistory_def exampleArgs_def
      split: sum.splits)

text \<open>
  Claim C7, as amended. Let \<^verbatim>\<open>Apply\<close> run with PyDABs enabled, let every step up to the
  loading of the output succeed, and let the normalization of the loaded output give the
  diagnostics \<open>ds\<close>, with a warning among them. Then \<^verbatim>\<open>Apply\<close> fails and the bundle is as it
  was: the output is not merged. The error is
  \<^verbatim>\<open>failed to normalize Python mutator output: <summary>\<close>, with the summary of the first
  warning of \<open>ds\<close> when \<open>ds\<close> has no error, and with the summary of the first error of \<open>ds\<close>
  when it has one.
\<close>

theorem warning_fails_mutation:
  assumes enabled: "Experimental (Config b) = Some e" "Enabled (PyDABs e)"
      "VEnvPath (PyDABs e) \<noteq> []"
    and names: "pythonPath = interpreterPath sys (VEnvPath (PyDABs e))"
      "inputPath = Join sys [cacheDir, ''input.json'']"
      "outputPath = Join sys [cacheDir, ''output.json'']"
      "args = [pythonPath, ''-m'', ''databricks.bundles.build'', ''--phase'', ph,
               ''--input'', inputPath, ''--output'', outputPath]"
    and statOk: "Stat sys h pythonPath = None"
    and cacheOk: "createCacheDir sys (h @ [EvStat pythonPath]) = (Inr cacheDir, h2)"
    and marshalOk: "Marshal sys (AsAny (value (Config b))) = Inr rootConfigJson"
    and writeOk: "WriteFile sys h2 inputPath rootConfigJson = None"
    and processOk: "Background sys (h2 @ [EvWriteFile inputPath rootConfigJson]) args (RootPath b)
                    = None"
    and openOk: "Open sys (h2 @ [EvWriteFile inputPath rootConfigJson,
                    EvBackground args (RootPath b)]) outputPath = Inr outputFile"
    and absOk: "Abs sys (h2 @ [EvWriteFile inputPath rootConfigJson,
                 EvBackground args (RootPath b), EvOpen outputPath])
                 (Join sys [RootPath b, ''__generated_by_pydabs__.yml'']) = Inr virtualPath"
    and parseOk: "Parse sys outputFile = Inr parsed"
    and normalizeOk: "Normalize sys (withFile virtualPath parsed) = (normalized, ds)"
    and warn: "d \<in> set ds" "Severity d = Warning"
  shows "Apply sys ph b h =
     (Some (case diagError ds of
              Some err \<Rightarrow> Errorf ''failed to normalize Python mutator output: %w'' [W err]
            | None \<Rightarrow> Errorf ''failed to normalize Python mutator output: %s''
                       [S (Summary (hd (Filter Warning ds)))]),
      b,
      h2 @ [EvWriteFile inputPath rootConfigJson, EvBackground args (RootPath b),
            EvOpen outputPath])"
proof -
  have run: "runPythonMutator sys ph cacheDir (RootPath b) pythonPath (value (Config b)) h2 =
      (checkNormalized (normalized, ds),
       h2 @ [EvWriteFile inputPath rootConfigJson, EvBackground args (RootPath b),
             EvOpen outputPath])"
    using runPythonMutator_reaches_normalize [OF marshalOk writeOk processOk openOk absOk parseOk
        names(2,3,4)] normalizeOk by simp
  show ?thesis
    using Apply_run_failure [OF enabled statOk [unfolded names(1)] cacheOk [unfolded names(1)]]
      run [unfolded checkNormalized_warning [OF warn]]
    by (simp add: names(1))
qed

theorem warning_fails_mutation_witness:
  "Apply (exampleSys exampleDocument [unknownFieldWarning])
       PythonMutatorPhaseLoad (exampleBundle (pydabsEnabled ''.venv'')) []
     = (Some (Errorf ''failed to normalize Python mutator output: %s''
                [S ''unknown field: unknown_property'']),
        exampleBundle (pydabsEnabled ''.venv''), exampleHistory PythonMutatorPhaseLoad)"
proof -
  let ?sys = "exampleSys exampleDocument [unknownFieldWarning]"
  let ?b = "exampleBundle (pydabsEnabled ''.venv'')"
  let ?e = "\<lparr> PyDABs = \<lparr> Enabled = True, VEnvPath = ''.venv'' \<rparr> \<rparr>"
  have enabled: "Experimental (Config ?b) = Some ?e" "Enabled (PyDABs ?e)"
    "VEnvPath (PyDABs ?e) \<noteq> []"
    by (simp_all add: exampleBundle_def pydabsEnabled_def)
  have names: "''.venv/bin/python3'' = interpreterPath ?sys (VEnvPath (PyDABs ?e))"
    "''/tmp/bundle/default/pydabs/input.json''
       = Join ?sys [''/tmp/bundle/default/pydabs'', ''input.json'']"
    "''/tmp/bundle/default/pydabs/output.json''
       = Join ?sys [''/tmp/bundle/default/pydabs'', ''output.json'']"
    "exampleArgs PythonMutatorPhaseLoad
       = [''.venv/bin/python3'', ''-m'', ''databricks.bundles.build'', ''--phase'',
          PythonMutatorPhaseLoad, ''--input'', ''/tmp/bundle/default/pydabs/input.json'',
          ''--output'', ''/tmp/bundle/default/pydabs/output.json'']"
    by (simp_all add: interpreterPath_def exampleSys_def example_paths exampleArgs_def)
  have statOk: "Stat ?sys [] ''.venv/bin/python3'' = None"
    by (simp add: exampleSys_def)
  have cacheOk: "createCacheDir ?sys ([] @ [EvStat ''.venv/bin/python3''])
      = (Inr ''/tmp/bundle/default/pydabs'',
         [EvStat ''.venv/bin/python3'', EvMkdirAll ''/tmp/bundle/default/pydabs'' None])"
    by (simp add: createCacheDir_def exampleSys_def example_paths Let_def)
  have marshalOk: "Marshal ?sys (AsAny (value (Config ?b))) = Inr ''{}''"
    by (simp add: exampleSys_def)
  have writeOk: "WriteFile ?sys [EvStat ''.venv/bin/python3'',
      EvMkdirAll ''/tmp/bundle/default/pydabs'' None]
      ''/tmp/bundle/default/pydabs/input.json'' ''{}'' = None"
    by (simp add: exampleSys_def)
  have processOk: "Background ?sys ([EvStat ''.venv/bin/python3'',
      EvMkdirAll ''/tmp/bundle/default/pydabs'' None]
      @ [EvWriteFile ''/tmp/bundle/default/pydabs/input.json'' ''{}''])
      (exampleArgs PythonMutatorPhaseLoad) (RootPath ?b) = None"
    by (simp add: exampleSys_def)
  have openOk: "Open ?sys ([EvStat ''.venv/bin/python3'',
      EvMkdirAll ''/tmp/bundle/default/pydabs'' None]
      @ [EvWriteFile ''/tmp/bundle/default/pydabs/input.json'' ''{}'',
         EvBackground (exampleArgs PythonMutatorPhaseLoad) (RootPath ?b)])
      ''/tmp/bundle/default/pydabs/output.json'' = Inr ''output''"
    by (simp add: exampleSys_def)
  have absOk: "Abs ?sys ([EvStat ''.venv/bin/python3'',
      EvMkdirAll ''/tmp/bundle/default/pydabs'' None]
      @ [EvWriteFile ''/tmp/bundle/default/pydabs/input.json'' ''{}'',
         EvBackground (exampleArgs PythonMutatorPhaseLoad) (RootPath ?b),
         EvOpen ''/tmp/bundle/default/pydabs/output.json''])
      (Join ?sys [RootPath ?b, ''__generated_by_pydabs__.yml''])
      = Inr ''/project/__generated_by_pydabs__.yml''"
    by (simp add: exampleSys_def exampleBundle_def example_paths)
  have parseOk: "Parse ?sys ''output'' = Inr exampleDocument"
    by (simp add: exampleSys_def)
  have normalizeOk: "Normalize ?sys (withFile ''/project/__generated_by_pydabs__.yml'' exampleDocument)
      = (withFile ''/project/__generated_by_pydabs__.yml'' exampleDocument, [unknownFieldWarning])"
    by (simp add: exampleSys_def)
  have warn: "unknownFieldWarning \<in> set [unknownFieldWarning]"
    "Severity unknownFieldWarning = Warning"
    by (simp_all add: unknownFieldWarning_def)
  from warning_fails_mutation [OF enabled names statOk cacheOk marshalOk writeOk processOk openOk absOk
      parseOk normalizeOk warn]
  show ?thesis
    by (simp add: Filter_def unknownFieldWarning_def exampleHistory_def exampleBundle_def)
qed

text \<open>
  Claim C7 as stated fails when the normalization gives an error besides the warning
  (the output has a field of the wrong type and an unknown field): the error that
  \<^verbatim>\<open>Apply\<close> returns has the summary of the error, and none of the warning.
\<close>

theorem error_diagnostic_reported_before_warning:
"Apply (exampleSys exampleDocument [typeMismatchError, unknownFieldWarning])
       PythonMutatorPhaseLoad (exampleBundle (pydabsEnabled ''.venv'')) []
     = (Some (Errorf ''failed to normalize Python mutator output: %w''
                [W (Errorf ''%s'' [S ''expected string, found map''])]),
        exampleBundle (pydabsEnabled ''.venv''), exampleHistory PythonMutatorPhaseLoad)"
  by (simp add: example_run checkNormalized_def typeMismatchError_def)

section \<open>The cache directory\<close>

lemma createdDirs_append: "createdDirs (h @ h') = createdDirs h @ createdDirs h'"
  by (induction h rule: createdDirs.induct) simp_all

text \<open>
  Claim C8, as amended. When the variable of the cache root is set, \<^verbatim>\<open>createCacheDir\<close>
  calls \<^verbatim>\<open>os.MkdirAll\<close> on \<^verbatim>\<open><tempdir>/default/pydabs\<close> and returns that directory when the
  call succeeds, and the error of the call when it fails; so two calls that succeed with
  the same root return the same directory. When the variable is not set, it returns what
  one call of \<^verbatim>\<open>os.MkdirTemp("", "-pydabs")\<close> returns, a directory or an error; as
  \<^verbatim>\<open>os.MkdirTemp\<close> makes a directory that was not there before, a later call returns a
  directory other than that of an earlier call.
\<close>

theorem createCacheDir_result:
  "(TempDir sys h = Some tempDir
      \<and> MkdirAll sys h (Join sys [tempDir, ''default'', ''pydabs'']) = None
     \<longrightarrow> createCacheDir sys h =
           (Inr (Join sys [tempDir, ''default'', ''pydabs'']),
            h @ [EvMkdirAll (Join sys [tempDir, ''default'', ''pydabs'']) None]))
   \<and> (TempDir sys h = Some tempDir
      \<and> MkdirAll sys h (Join sys [tempDir, ''default'', ''pydabs'']) = Some err
     \<longrightarrow> createCacheDir sys h =
           (Inl err, h @ [EvMkdirAll (Join sys [tempDir, ''default'', ''pydabs'']) (Some err)]))
   \<and> (TempDir sys h = Some tempDir \<and> TempDir sys h' = Some tempDir
      \<and> fst (createCacheDir sys h) = Inr dir \<and> fst (createCacheDir sys h') = Inr dir'
     \<longrightarrow> dir' = dir)
   \<and> (TempDir sys h = None
     \<longrightarrow> createCacheDir sys h =
           (MkdirTemp sys h [] ''-pydabs'',
            h @ [EvMkdirTemp [] ''-pydabs'' (MkdirTemp sys h [] ''-pydabs'')]))
   \<and> (TempDir sys h = None \<and> createCacheDir sys h = (Inr dir, h1)
      \<and> TempDir sys (h1 @ later) = None \<and> createCacheDir sys (h1 @ later) = (Inr dir', h2)
      \<and> dir' \<notin> set (createdDirs (h1 @ later))
     \<longrightarrow> dir \<in> set (createdDirs h1) \<and> dir' \<in> set (createdDirs h2) \<and> dir' \<noteq> dir)"
proof -
  have A: "TempDir sys h = Some tempDir
      \<and> MkdirAll sys h (Join sys [tempDir, ''default'', ''pydabs'']) = None
     \<longrightarrow> createCacheDir sys h =
           (Inr (Join sys [tempDir, ''default'', ''pydabs'']),
            h @ [EvMkdirAll (Join sys [tempDir, ''default'', ''pydabs'']) None])"
    by (simp add: createCacheDir_def Let_def)
  have B: "TempDir sys h = Some tempDir
      \<and> MkdirAll sys h (Join sys [tempDir, ''default'', ''pydabs'']) = Some err
     \<longrightarrow> createCacheDir sys h =
           (Inl err, h @ [EvMkdirAll (Join sys [tempDir, ''default'', ''pydabs'']) (Some err)])"
    by (simp add: createCacheDir_def Let_def)
  have C: "TempDir sys h = Some tempDir \<and> TempDir sys h' = Some tempDir
      \<and> fst (createCacheDir sys h) = Inr dir \<and> fst (createCacheDir sys h') = Inr dir'
     \<longrightarrow> dir' = dir"
    by (auto simp: createCacheDir_def Let_def split: option.splits)
  have D: "TempDir sys h = None
     \<longrightarrow> createCacheDir sys h =
           (MkdirTemp sys h [] ''-pydabs'',
            h @ [EvMkdirTemp [] ''-pydabs'' (MkdirTemp sys h [] ''-pydabs'')])"
    by (simp add: createCacheDir_def Let_def)
  have E: "TempDir sys h = None \<and> createCacheDir sys h = (Inr dir, h1)
      \<and> TempDir sys (h1 @ later) = None \<and> createCacheDir sys (h1 @ later) = (Inr dir', h2)
      \<and> dir' \<notin> set (createdDirs (h1 @ later))
     \<longrightarrow> dir \<in> set (createdDirs h1) \<and> dir' \<in> set (createdDirs h2) \<and> dir' \<noteq> dir"
  proof (intro impI, elim conjE)
    assume 1: "TempDir sys h = None" "createCacheDir sys h = (Inr dir, h1)"
      and 2: "TempDir sys (h1 @ later) = None" "createCacheDir sys (h1 @ later) = (Inr dir', h2)"
      and fresh: "dir' \<notin> set (createdDirs (h1 @ later))"
    from 1 have h1: "h1 = h @ [EvMkdirTemp [] ''-pydabs'' (Inr dir)]"
      by (auto simp: createCacheDir_def Let_def)
    from 2 have h2: "h2 = (h1 @ later) @ [EvMkdirTemp [] ''-pydabs'' (Inr dir')]"
      by (auto simp: createCacheDir_def Let_def)
    have d: "dir \<in> set (createdDirs h1)" by (simp add: h1 createdDirs_append)
    have d': "dir' \<in> set (createdDirs h2)" unfolding h2 by (simp add: createdDirs_append)
    from d fresh have "dir' \<noteq> dir" by (auto simp: createdDirs_append)
    with d d' show "dir \<in> set (createdDirs h1) \<and> dir' \<in> set (createdDirs h2) \<and> dir' \<noteq> dir"
      by simp
  qed
  from A B C D E show ?thesis by (intro conjI)
qed

lemma tempSys_calls:
  "createCacheDir tempSys [] = (Inr ''/tmp/-pydabs0'', [EvMkdirTemp [] ''-pydabs'' (Inr ''/tmp/-pydabs0'')])"
  "createCacheDir tempSys ([EvMkdirTemp [] ''-pydabs'' (Inr ''/tmp/-pydabs0'')] @ [])
     = (Inr ''/tmp/-pydabs1'', [EvMkdirTemp [] ''-pydabs'' (Inr ''/tmp/-pydabs0''),
          EvMkdirTemp [] ''-pydabs'' (Inr ''/tmp/-pydabs1'')])"
  by (simp_all add: createCacheDir_def tempSys_def exampleSys_def Let_def)

theorem createCacheDir_result_witness:
  "createCacheDir (exampleSys exampleDocument []) []
     = (Inr ''/tmp/bundle/default/pydabs'', [EvMkdirAll ''/tmp/bundle/default/pydabs'' None])
   \<and> createCacheDir readOnlySys []
     = (Inl (External ''permission denied''),
        [EvMkdirAll ''/tmp/bundle/default/pydabs'' (Some (External ''permission denied''))])
   \<and> createCacheDir tempSys []
     = (Inr ''/tmp/-pydabs0'', [EvMkdirTemp [] ''-pydabs'' (Inr ''/tmp/-pydabs0'')])
   \<and> ''/tmp/-pydabs1'' \<noteq> ''/tmp/-pydabs0''"
proof -
  let ?sys = "exampleSys exampleDocument []"
  have set: "TempDir ?sys [] = Some ''/tmp/bundle''
      \<and> MkdirAll ?sys [] (Join ?sys [''/tmp/bundle'', ''default'', ''pydabs'']) = None"
    by (simp add: exampleSys_def)
  have ro: "TempDir readOnlySys [] = Some ''/tmp/bundle''
      \<and> MkdirAll readOnlySys [] (Join readOnlySys [''/tmp/bundle'', ''default'', ''pydabs''])
          = Some (External ''permission denied'')"
    by (simp add: readOnlySys_def exampleSys_def)
  have unset: "TempDir tempSys [] = None" by (simp add: tempSys_def exampleSys_def)
  have twice: "TempDir tempSys [] = None
      \<and> createCacheDir tempSys [] = (Inr ''/tmp/-pydabs0'',
            [EvMkdirTemp [] ''-pydabs'' (Inr ''/tmp/-pydabs0'')])
      \<and> TempDir tempSys ([EvMkdirTemp [] ''-pydabs'' (Inr ''/tmp/-pydabs0'')] @ []) = None
      \<and> createCacheDir tempSys ([EvMkdirTemp [] ''-pydabs'' (Inr ''/tmp/-pydabs0'')] @ [])
          = (Inr ''/tmp/-pydabs1'', [EvMkdirTemp [] ''-pydabs'' (Inr ''/tmp/-pydabs0''),
               EvMkdirTemp [] ''-pydabs'' (Inr ''/tmp/-pydabs1'')])
      \<and> ''/tmp/-pydabs1'' \<notin> set (createdDirs ([EvMkdirTemp [] ''-pydabs'' (Inr ''/tmp/-pydabs0'')] @ []))"
    using tempSys_calls by (simp add: tempSys_def exampleSys_def)
  note c1 = createCacheDir_result [where sys = ?sys and h = "[]", THEN conjunct1, THEN mp, OF set]
  note c2 = createCacheDir_result [where sys = readOnlySys and h = "[]", THEN conjunct2,
      THEN conjunct1, THEN mp, OF ro]
  note c4 = createCacheDir_result [where sys = tempSys and h = "[]", THEN conjunct2,
      THEN conjunct2, THEN conjunct2, THEN conjunct1, THEN mp, OF unset]
  note c5 = createCacheDir_result [where sys = tempSys and h = "[]", THEN conjunct2,
      THEN conjunct2, THEN conjunct2, THEN conjunct2, THEN mp, OF twice]
  from c1 c2 c4 c5 show ?thesis
    by (simp add: exampleSys_def readOnlySys_def tempSys_def example_paths)
qed

text \<open>
  Claim C8 as stated fails when the variable is set and the directory cannot be made:
  \<^verbatim>\<open>createCacheDir\<close> returns the error of \<^verbatim>\<open>os.MkdirAll\<close>, and no directory.
\<close>

theorem createCacheDir_fails_when_mkdir_fails:
  "TempDir readOnlySys [] = Some ''/tmp/bundle''
   \<and> createCacheDir readOnlySys []
     = (Inl (External ''permission denied''),
        [EvMkdirAll ''/tmp/bundle/default/pydabs'' (Some (External ''permission denied''))])"
  by (simp add: createCacheDir_def readOnlySys_def exampleSys_def example_paths Let_def)

section \<open>The loader and the merge: facts\<close>

lemma map_of_map_prod:
  "map_of (map (map_prod id f) ps) k = map_option f (map_of ps k)"
  by (induction ps) auto

lemma GetByPath_withFile:
  "GetByPath (withFile path v) p = map_option (withFile path) (GetByPath v p)"
proof (induction p arbitrary: v)
  case Nil
  show ?case by simp
next
  case (Cons c p)
  obtain d l where v: "v = NewValue d l" by (cases v)
  show ?case
  proof (cases c)
    case (Key k)
    show ?thesis
      by (cases d; cases "map_of (case d of DMap ps \<Rightarrow> ps | _ \<Rightarrow> []) k")
        (simp_all add: v Key Cons.IH map_of_map_prod)
  next
    case (Index i)
    show ?thesis
      by (cases d) (simp_all add: v Index Cons.IH)
  qed
qed

lemma File_withFile: "File (Location (withFile path v)) = path"
  by (cases v) simp

lemma loaded_nodes_have_file:
  "GetByPath (withFile path v) p = Some x \<Longrightarrow> File (Location x) = path"
  by (auto simp: GetByPath_withFile File_withFile)

lemma overridePairs_lookup:
  "overridePairs visitor basePath lm rs = Inr out \<Longrightarrow>
     (map_of rs k = None \<longrightarrow> map_of out k = None)
     \<and> (\<forall>rv. map_of rs k = Some rv \<longrightarrow>
           (\<exists>c. map_of out k = Some c
              \<and> (case map_of lm k of
                    Some lv \<Rightarrow> override visitor (basePath @ [Key k]) lv rv
                  | None \<Rightarrow> VisitInsert visitor (basePath @ [Key k]) rv) = Inr c))"
proof (induction rs arbitrary: out)
  case Nil
  then show ?case by simp
next
  case (Cons kv rs)
  obtain k' rv' where kv: "kv = (k', rv')" by (cases kv)
  from Cons.prems obtain nv out' where
    head: "(case map_of lm k' of
              Some lv \<Rightarrow> override visitor (basePath @ [Key k']) lv rv'
            | None \<Rightarrow> VisitInsert visitor (basePath @ [Key k']) rv') = Inr nv"
    and rest: "overridePairs visitor basePath lm rs = Inr out'"
    and out: "out = (k', nv) # out'"
    unfolding kv by (auto simp del: override.simps split: sum.splits)
  show ?case
  proof (cases "k = k'")
    case True
    from head show ?thesis unfolding kv out True by (simp del: override.simps)
  next
    case False
    with Cons.IH [OF rest] show ?thesis by (simp add: kv out del: override.simps)
  qed
qed

lemma overrideElems_nth:
  "overrideElems visitor basePath i ls rs = Inr out \<Longrightarrow>
     length out = length rs
     \<and> (\<forall>j < length rs.
           (if j < length ls
            then override visitor (basePath @ [Index (int (i + j))]) (ls ! j) (rs ! j)
            else VisitInsert visitor (basePath @ [Index (int (i + j))]) (rs ! j)) = Inr (out ! j))"
proof (induction rs arbitrary: i ls out)
  case Nil
  then show ?case by (simp split: option.splits)
next
  case (Cons rv rs)
  from Cons.prems obtain nv out' where
    head: "(case ls of
              lv # lrest \<Rightarrow> override visitor (basePath @ [Index (int i)]) lv rv
            | [] \<Rightarrow> VisitInsert visitor (basePath @ [Index (int i)]) rv) = Inr nv"
    and rest: "overrideElems visitor basePath (Suc i) (tl ls) rs = Inr out'"
    and out: "out = nv # out'"
    by (auto simp del: override.simps split: sum.splits)
  note IH = Cons.IH [OF rest]
  show ?case
  proof (intro conjI allI impI)
    show "length out = length (rv # rs)" using IH by (simp add: out)
  next
    fix j assume j: "j < length (rv # rs)"
    show "(if j < length ls
           then override visitor (basePath @ [Index (int (i + j))]) (ls ! j) ((rv # rs) ! j)
           else VisitInsert visitor (basePath @ [Index (int (i + j))]) ((rv # rs) ! j))
          = Inr (out ! j)"
    proof (cases j)
      case 0
      with head show ?thesis by (cases ls) (simp_all add: out del: override.simps)
    next
      case (Suc j')
      with j have "j' < length rs" by simp
      with IH have "(if j' < length (tl ls)
            then override visitor (basePath @ [Index (int (Suc i + j'))]) (tl ls ! j') (rs ! j')
            else VisitInsert visitor (basePath @ [Index (int (Suc i + j'))]) (rs ! j'))
           = Inr (out' ! j')" by blast
      then show ?thesis
        by (cases ls) (auto simp: Suc out simp del: override.simps split: if_splits)
    qed
  qed
qed

lemma passesRight_init: "passesRight createInitOverrideVisitor"
  by (auto simp: passesRight_def createInitOverrideVisitor_def split: if_splits)

lemma passesRight_load: "passesRight createLoadOverrideVisitor"
  by (auto simp: passesRight_def createLoadOverrideVisitor_def split: if_splits)

lemma passesRightD:
  "passesRight visitor \<Longrightarrow> VisitInsert visitor p r = Inr x \<Longrightarrow> x = r"
  "passesRight visitor \<Longrightarrow> VisitUpdate visitor p l r = Inr x \<Longrightarrow> x = r"
  by (auto simp: passesRight_def)

text \<open>One level of the walk, by the kinds of the two nodes.\<close>

lemma override_cases:
  assumes "override visitor basePath l r = Inr m"
  obtains
    (update) "Kind l \<noteq> Kind r
        \<or> (Kind r \<noteq> KindMap \<and> Kind r \<noteq> KindSequence
            \<and> \<not> sameScalar (payload l) (payload r))"
      "VisitUpdate visitor basePath l r = Inr m"
  | (mapping) lm rm merged where "payload l = DMap lm" "payload r = DMap rm"
      "overridePairs visitor basePath lm rm = Inr merged"
      "m = NewValue (DMap merged) (Location l)"
  | (sequence) ls rs merged where "payload l = DSequence ls" "payload r = DSequence rs"
      "overrideElems visitor basePath 0 ls rs = Inr merged"
      "m = NewValue (DSequence merged) (Location l)"
  | (same) "sameScalar (payload l) (payload r)" "m = l"
proof -
  from assms have unfolded:
    "(if Kind l \<noteq> Kind r then VisitUpdate visitor basePath l r
      else
        (case payload r of
           DMap rightMapping \<Rightarrow>
             (case payload l of
                DMap leftMapping \<Rightarrow>
                  (case visitDeletes visitor basePath leftMapping rightMapping of
                     Some err \<Rightarrow> Inl err
                   | None \<Rightarrow>
                       (case overridePairs visitor basePath leftMapping rightMapping of
                          Inl err \<Rightarrow> Inl err
                        | Inr merged \<Rightarrow> Inr (NewValue (DMap merged) (Location l))))
              | _ \<Rightarrow> VisitUpdate visitor basePath l r)
         | DSequence rightSeq \<Rightarrow>
             (case payload l of
                DSequence leftSeq \<Rightarrow>
                  (case overrideElems visitor basePath 0 leftSeq rightSeq of
                     Inl err \<Rightarrow> Inl err
                   | Inr merged \<Rightarrow> Inr (NewValue (DSequence merged) (Location l)))
              | _ \<Rightarrow> VisitUpdate visitor basePath l r)
         | _ \<Rightarrow>
             if sameScalar (payload l) (payload r) then Inr l
             else VisitUpdate visitor basePath l r)) = Inr m"
    by (subst (asm) override.simps)
  show thesis
  proof (cases "Kind l \<noteq> Kind r")
    case True
    with unfolded show thesis by (intro update) (simp_all del: override.simps)
  next
    case False
    show thesis
    proof (cases "payload r")
      case (DMap rm)
      with False obtain lm where lm: "payload l = DMap lm"
        by (cases "payload l") (simp_all add: Kind_def)
      from unfolded False obtain merged where
        "overridePairs visitor basePath lm rm = Inr merged"
        "m = NewValue (DMap merged) (Location l)"
        by (auto simp: DMap lm simp del: override.simps split: option.splits sum.splits)
      with lm DMap show thesis by (intro mapping)
    next
      case (DSequence rs)
      with False obtain ls where ls: "payload l = DSequence ls"
        by (cases "payload l") (simp_all add: Kind_def)
      from unfolded False obtain merged where
        "overrideElems visitor basePath 0 ls rs = Inr merged"
        "m = NewValue (DSequence merged) (Location l)"
        by (auto simp: DSequence ls simp del: override.simps split: sum.splits)
      with ls DSequence show thesis by (intro sequence)
    next
      case DNil
      with unfolded False show thesis
        by (cases "sameScalar (payload l) (payload r)")
          (auto intro: update same simp: Kind_def simp del: override.simps)
    next
      case (DBool x)
      with unfolded False show thesis
        by (cases "sameScalar (payload l) (payload r)")
          (auto intro: update same simp: Kind_def simp del: override.simps)
    next
      case (DInt x)
      with unfolded False show thesis
        by (cases "sameScalar (payload l) (payload r)")
          (auto intro: update same simp: Kind_def simp del: override.simps)
    next
      case (DFloat x)
      with unfolded False show thesis
        by (cases "sameScalar (payload l) (payload r)")
          (auto intro: update same simp: Kind_def simp del: override.simps)
    next
      case (DString x)
      with unfolded False show thesis
        by (cases "sameScalar (payload l) (payload r)")
          (auto intro: update same simp: Kind_def simp del: override.simps)
    qed
  qed
qed

lemma override_inserted:
  assumes pr: "passesRight visitor"
  shows "override visitor basePath l r = Inr m \<Longrightarrow> GetByPath l p = None
     \<Longrightarrow> GetByPath m p = Some x \<Longrightarrow> GetByPath r p = Some x"
proof (induction p arbitrary: basePath l r m)
  case Nil
  then show ?case by (simp del: override.simps)
next
  case (Cons c p)
  from Cons.prems(1) show ?case
  proof (cases rule: override_cases)
    case update
    with pr have "m = r" by (auto dest: passesRightD)
    with Cons.prems show ?thesis by (simp del: override.simps)
  next
    case (mapping lm rm merged)
    show ?thesis
    proof (cases c)
      case (Key k)
      from Cons.prems(3) obtain cv where cv: "map_of merged k = Some cv" "GetByPath cv p = Some x"
        by (auto simp: mapping Key simp del: override.simps split: option.splits)
      from overridePairs_lookup [OF mapping(3), of k] cv(1)
      obtain rv where rv: "map_of rm k = Some rv"
        and step: "(case map_of lm k of
                      Some lv \<Rightarrow> override visitor (basePath @ [Key k]) lv rv
                    | None \<Rightarrow> VisitInsert visitor (basePath @ [Key k]) rv) = Inr cv"
        by (cases "map_of rm k") (auto simp del: override.simps)
      show ?thesis
      proof (cases "map_of lm k")
        case None
        with step pr have "cv = rv" by (auto dest: passesRightD simp del: override.simps)
        with cv rv show ?thesis by (simp add: mapping Key del: override.simps)
      next
        case (Some lv)
        with step have o: "override visitor (basePath @ [Key k]) lv rv = Inr cv"
          by (simp del: override.simps)
        from Cons.prems(2) Some have "GetByPath lv p = None"
          by (simp add: mapping Key del: override.simps)
        from Cons.IH [OF o this cv(2)] rv show ?thesis
          by (simp add: mapping Key del: override.simps)
      qed
    next
      case (Index i)
      with Cons.prems(3) mapping show ?thesis by (simp del: override.simps)
    qed
  next
    case (sequence ls rs merged)
    show ?thesis
    proof (cases c)
      case (Key k)
      with Cons.prems(3) sequence show ?thesis by (simp del: override.simps)
    next
      case (Index i)
      note nth = overrideElems_nth [OF sequence(3)]
      from Cons.prems(3) have i: "0 \<le> i" "nat i < length merged"
        and x: "GetByPath (merged ! nat i) p = Some x"
        by (auto simp: sequence Index simp del: override.simps split: if_splits)
      from i nth have ir: "nat i < length rs" by simp
      with nth have step: "(if nat i < length ls
            then override visitor (basePath @ [Index (int (0 + nat i))]) (ls ! nat i) (rs ! nat i)
            else VisitInsert visitor (basePath @ [Index (int (0 + nat i))]) (rs ! nat i))
           = Inr (merged ! nat i)" by blast
      show ?thesis
      proof (cases "nat i < length ls")
        case True
        with step have o: "override visitor (basePath @ [Index (int (0 + nat i))])
            (ls ! nat i) (rs ! nat i) = Inr (merged ! nat i)" by (simp del: override.simps)
        from Cons.prems(2) True i have "GetByPath (ls ! nat i) p = None"
          by (simp add: sequence Index del: override.simps)
        from Cons.IH [OF o this x] i ir show ?thesis
          by (simp add: sequence Index del: override.simps)
      next
        case False
        with step pr have "merged ! nat i = rs ! nat i"
          by (auto dest: passesRightD simp del: override.simps)
        with x i ir show ?thesis by (simp add: sequence Index del: override.simps)
      qed
    qed
  next
    case same
    with Cons.prems show ?thesis by (simp del: override.simps)
  qed
qed

lemma override_present:
  assumes pr: "passesRight visitor"
  shows "override visitor basePath l r = Inr m \<Longrightarrow> GetByPath l p = None
     \<Longrightarrow> GetByPath r p = Some x \<Longrightarrow> GetByPath m p = Some x"
proof (induction p arbitrary: basePath l r m)
  case Nil
  then show ?case by (simp del: override.simps)
next
  case (Cons c p)
  from Cons.prems(1) show ?case
  proof (cases rule: override_cases)
    case update
    with pr have "m = r" by (auto dest: passesRightD)
    with Cons.prems show ?thesis by (simp del: override.simps)
  next
    case (mapping lm rm merged)
    show ?thesis
    proof (cases c)
      case (Key k)
      from Cons.prems(3) obtain rv where rv: "map_of rm k = Some rv" "GetByPath rv p = Some x"
        by (auto simp: mapping Key simp del: override.simps split: option.splits)
      from overridePairs_lookup [OF mapping(3), of k] rv(1)
      obtain cv where cv: "map_of merged k = Some cv"
        and step: "(case map_of lm k of
                      Some lv \<Rightarrow> override visitor (basePath @ [Key k]) lv rv
                    | None \<Rightarrow> VisitInsert visitor (basePath @ [Key k]) rv) = Inr cv"
        by (auto simp del: override.simps)
      show ?thesis
      proof (cases "map_of lm k")
        case None
        with step pr have "cv = rv" by (auto dest: passesRightD simp del: override.simps)
        with cv rv show ?thesis by (simp add: mapping Key del: override.simps)
      next
        case (Some lv)
        with step have o: "override visitor (basePath @ [Key k]) lv rv = Inr cv"
          by (simp del: override.simps)
        from Cons.prems(2) Some have "GetByPath lv p = None"
          by (simp add: mapping Key del: override.simps)
        from Cons.IH [OF o this rv(2)] cv show ?thesis
          by (simp add: mapping Key del: override.simps)
      qed
    next
      case (Index i)
      with Cons.prems(3) mapping show ?thesis by (simp del: override.simps)
    qed
  next
    case (sequence ls rs merged)
    show ?thesis
    proof (cases c)
      case (Key k)
      with Cons.prems(3) sequence show ?thesis by (simp del: override.simps)
    next
      case (Index i)
      note nth = overrideElems_nth [OF sequence(3)]
      from Cons.prems(3) have i: "0 \<le> i" "nat i < length rs"
        and x: "GetByPath (rs ! nat i) p = Some x"
        by (auto simp: sequence Index simp del: override.simps split: if_splits)
      from i nth have im: "nat i < length merged" by simp
      from i nth have step: "(if nat i < length ls
            then override visitor (basePath @ [Index (int (0 + nat i))]) (ls ! nat i) (rs ! nat i)
            else VisitInsert visitor (basePath @ [Index (int (0 + nat i))]) (rs ! nat i))
           = Inr (merged ! nat i)" by blast
      show ?thesis
      proof (cases "nat i < length ls")
        case True
        with step have o: "override visitor (basePath @ [Index (int (0 + nat i))])
            (ls ! nat i) (rs ! nat i) = Inr (merged ! nat i)" by (simp del: override.simps)
        from Cons.prems(2) True i have "GetByPath (ls ! nat i) p = None"
          by (simp add: sequence Index del: override.simps)
        from Cons.IH [OF o this x] i im show ?thesis
          by (simp add: sequence Index del: override.simps)
      next
        case False
        with step pr have "merged ! nat i = rs ! nat i"
          by (auto dest: passesRightD simp del: override.simps)
        with x i im show ?thesis by (simp add: sequence Index del: override.simps)
      qed
    qed
  next
    case same
    with Cons.prems(3) show ?thesis
      by (cases c; cases "payload l"; cases "payload r") (simp_all del: override.simps)
  qed
qed

lemma override_untouched:
  "override visitor basePath l r = Inr m \<Longrightarrow> GetByPath l p = Some a
     \<Longrightarrow> GetByPath r p = Some b \<Longrightarrow> untouched a b
     \<Longrightarrow> \<exists>x. GetByPath m p = Some x \<and> Location x = Location a \<and> (\<not> isContainer a \<longrightarrow> x = a)"
proof (induction p arbitrary: basePath l r m)
  case Nil
  then have a: "a = l" and b: "b = r" by simp_all
  from Nil.prems(4) have u: "Kind l = Kind r"
    "isContainer l \<or> sameScalar (payload l) (payload r)"
    by (simp_all add: untouched_def a b)
  from Nil.prems(1) show ?case
  proof (cases rule: override_cases)
    case update
    with u show ?thesis by (auto simp: isContainer_def)
  next
    case (mapping lm rm merged)
    then show ?thesis by (simp add: a isContainer_def Kind_def del: override.simps)
  next
    case (sequence ls rs merged)
    then show ?thesis by (simp add: a isContainer_def Kind_def del: override.simps)
  next
    case same
    then show ?thesis by (simp add: a del: override.simps)
  qed
next
  case (Cons c p)
  show ?case
  proof (cases c)
    case (Key k)
    from Cons.prems(2) obtain lm lv where l: "payload l = DMap lm" "map_of lm k = Some lv"
      "GetByPath lv p = Some a"
      by (auto simp: Key simp del: override.simps split: data.splits option.splits)
    from Cons.prems(3) obtain rm rv where r: "payload r = DMap rm" "map_of rm k = Some rv"
      "GetByPath rv p = Some b"
      by (auto simp: Key simp del: override.simps split: data.splits option.splits)
    from Cons.prems(1) obtain merged where merged: "overridePairs visitor basePath lm rm = Inr merged"
      and m: "m = NewValue (DMap merged) (Location l)"
      using l(1) r(1) by (cases rule: override_cases) (auto simp: Kind_def simp del: override.simps)
    from overridePairs_lookup [OF merged, of k] r(2) l(2)
    obtain cv where cv: "map_of merged k = Some cv"
      "override visitor (basePath @ [Key k]) lv rv = Inr cv"
      by (auto simp del: override.simps)
    from Cons.IH [OF cv(2) l(3) r(3) Cons.prems(4)] cv(1) show ?thesis
      by (simp add: m Key del: override.simps)
  next
    case (Index i)
    from Cons.prems(2) obtain ls where l: "payload l = DSequence ls" "0 \<le> i" "nat i < length ls"
      "GetByPath (ls ! nat i) p = Some a"
      by (auto simp: Index simp del: override.simps split: data.splits if_splits)
    from Cons.prems(3) obtain rs where r: "payload r = DSequence rs" "nat i < length rs"
      "GetByPath (rs ! nat i) p = Some b"
      by (auto simp: Index simp del: override.simps split: data.splits if_splits)
    from Cons.prems(1) obtain merged where merged: "overrideElems visitor basePath 0 ls rs = Inr merged"
      and m: "m = NewValue (DSequence merged) (Location l)"
      using l(1) r(1) by (cases rule: override_cases) (auto simp: Kind_def simp del: override.simps)
    note nth = overrideElems_nth [OF merged]
    from nth r(2) l(3) have o: "override visitor (basePath @ [Index (int (0 + nat i))])
        (ls ! nat i) (rs ! nat i) = Inr (merged ! nat i)"
      by (auto simp del: override.simps split: if_splits)
    from Cons.IH [OF o l(4) r(3) Cons.prems(4)] nth r(2) l(2) show ?thesis
      by (simp add: m Index del: override.simps)
  qed
qed

lemma example_merge:
  "Override exampleDocument (withFile ''/project/__generated_by_pydabs__.yml'' generatedOutput)
     createInitOverrideVisitor = Inr mergedDocument"
  by code_simp

lemma example_merge_load:
  "Override exampleDocument (withFile ''/project/__generated_by_pydabs__.yml'' generatedOutput)
     createLoadOverrideVisitor
   = Inl (Errorf ''unexpected change at %q (insert)'' [Q ''resources.jobs.job0.description''])"
  by code_simp

lemma checkNormalized_Inr:
  "checkNormalized (normalized, ds) = Inr v \<Longrightarrow> v = normalized"
  by (auto simp: checkNormalized_def split: option.splits list.splits)

lemma Apply_success:
  assumes "Experimental (Config b) = Some e" "Enabled (PyDABs e)" "VEnvPath (PyDABs e) \<noteq> []"
    and "Stat sys h (interpreterPath sys (VEnvPath (PyDABs e))) = None"
    and "createCacheDir sys (h @ [EvStat (interpreterPath sys (VEnvPath (PyDABs e)))])
           = (Inr cacheDir, h2)"
    and "runPythonMutator sys ph cacheDir (RootPath b) (interpreterPath sys (VEnvPath (PyDABs e)))
           (value (Config b)) h2 = (r, h3)"
    and "createOverrideVisitor ph = Inr visitor"
    and "Apply sys ph b h = (None, b', h')"
  shows "\<exists>rightRoot. r = Inr rightRoot
     \<and> Override (value (Config b)) rightRoot visitor = Inr (value (Config b'))"
  using assms
  by (cases r; cases b)
    (auto simp: Apply_def getExperimental_def Mutate_def applyMutation_def Let_def
      split: sum.splits prod.splits)

section \<open>The locations of generated values\<close>

text \<open>
  Claim C5, as amended. The file that \<^verbatim>\<open>runPythonMutator\<close> gives the loader is the
  absolute path of \<^verbatim>\<open><project-root>/__generated_by_pydabs__.yml\<close>, not the path of the
  output file in the cache directory; every value loaded from the output of the plugin
  has this virtual path as the file of its Location. After a merge of the init phase that
  succeeds, a field that the output of the plugin has and the document did not have is in
  the document, as the output has it, with the virtual path as the file of its Location
  (given that the normalization keeps the file of every node); the document has no other
  new fields; and a field of the document that the output leaves untouched keeps its
  Location; an untouched scalar is the very value of the document.
\<close>

theorem generated_locations_after_init_merge:
  assumes en: "Experimental (Config b) = Some e" "Enabled (PyDABs e)"
      "VEnvPath (PyDABs e) \<noteq> []"
    and names: "pythonPath = interpreterPath sys (VEnvPath (PyDABs e))"
      "inputPath = Join sys [cacheDir, ''input.json'']"
      "outputPath = Join sys [cacheDir, ''output.json'']"
      "args = [pythonPath, ''-m'', ''databricks.bundles.build'', ''--phase'',
               PythonMutatorPhaseInit, ''--input'', inputPath, ''--output'', outputPath]"
    and statOk: "Stat sys h pythonPath = None"
    and cacheOk: "createCacheDir sys (h @ [EvStat pythonPath]) = (Inr cacheDir, h2)"
    and marshalOk: "Marshal sys (AsAny (value (Config b))) = Inr rootConfigJson"
    and writeOk: "WriteFile sys h2 inputPath rootConfigJson = None"
    and processOk: "Background sys (h2 @ [EvWriteFile inputPath rootConfigJson]) args (RootPath b)
                    = None"
    and openOk: "Open sys (h2 @ [EvWriteFile inputPath rootConfigJson,
                    EvBackground args (RootPath b)]) outputPath = Inr outputFile"
    and absOk: "Abs sys (h2 @ [EvWriteFile inputPath rootConfigJson,
                 EvBackground args (RootPath b), EvOpen outputPath])
                 (Join sys [RootPath b, ''__generated_by_pydabs__.yml'']) = Inr virtualPath"
    and parseOk: "Parse sys outputFile = Inr parsed"
    and normalizeOk: "Normalize sys (withFile virtualPath parsed) = (normalized, ds)"
    and keeps: "\<forall>p x. GetByPath normalized p = Some x \<longrightarrow> File (Location x) = virtualPath"
    and merged: "Apply sys PythonMutatorPhaseInit b h = (None, b', h')"
  shows "(\<forall>p x. GetByPath (withFile virtualPath parsed) p = Some x
            \<longrightarrow> File (Location x) = virtualPath)
       \<and> (\<forall>p x. GetByPath (value (Config b)) p = None
              \<and> GetByPath normalized p = Some x
            \<longrightarrow> GetByPath (value (Config b')) p = Some x
                \<and> File (Location x) = virtualPath)
       \<and> (\<forall>p x. GetByPath (value (Config b)) p = None
              \<and> GetByPath (value (Config b')) p = Some x
            \<longrightarrow> GetByPath normalized p = Some x
                \<and> File (Location x) = virtualPath)
       \<and> (\<forall>p a c. GetByPath (value (Config b)) p = Some a
              \<and> GetByPath normalized p = Some c \<and> untouched a c
            \<longrightarrow> (\<exists>x. GetByPath (value (Config b')) p = Some x
                   \<and> Location x = Location a \<and> (\<not> isContainer a \<longrightarrow> x = a)))"
proof -
  have run: "runPythonMutator sys PythonMutatorPhaseInit cacheDir (RootPath b) pythonPath
      (value (Config b)) h2 =
      (checkNormalized (normalized, ds),
       h2 @ [EvWriteFile inputPath rootConfigJson, EvBackground args (RootPath b),
             EvOpen outputPath])"
    using runPythonMutator_reaches_normalize [OF marshalOk writeOk processOk openOk absOk parseOk
        names(2,3,4)] normalizeOk by simp
  have visitor: "createOverrideVisitor PythonMutatorPhaseInit
      = (Inr createInitOverrideVisitor :: error + Value OverrideVisitor)"
    by (simp add: createOverrideVisitor_def PythonMutatorPhaseInit_def PythonMutatorPhaseLoad_def)
  from Apply_success [OF en statOk [unfolded names(1)] cacheOk [unfolded names(1)]
      run [unfolded names(1)] visitor merged]
  obtain rightRoot where rr: "checkNormalized (normalized, ds) = Inr rightRoot"
    and ov: "Override (value (Config b)) rightRoot createInitOverrideVisitor
               = Inr (value (Config b'))"
    by blast
  from rr have "rightRoot = normalized" by (rule checkNormalized_Inr)
  with ov have ov: "override createInitOverrideVisitor [] (value (Config b)) normalized
      = Inr (value (Config b'))"
    by (simp add: Override_def del: override.simps)
  have 1: "\<forall>p x. GetByPath (withFile virtualPath parsed) p = Some x
      \<longrightarrow> File (Location x) = virtualPath"
    by (auto dest: loaded_nodes_have_file)
  have 2: "\<forall>p x. GetByPath (value (Config b)) p = None
        \<and> GetByPath normalized p = Some x
      \<longrightarrow> GetByPath (value (Config b')) p = Some x
          \<and> File (Location x) = virtualPath"
    using override_present [OF passesRight_init ov] keeps by blast
  have 3: "\<forall>p x. GetByPath (value (Config b)) p = None
        \<and> GetByPath (value (Config b')) p = Some x
      \<longrightarrow> GetByPath normalized p = Some x
          \<and> File (Location x) = virtualPath"
    using override_inserted [OF passesRight_init ov] keeps by blast
  have 4: "\<forall>p a c. GetByPath (value (Config b)) p = Some a
        \<and> GetByPath normalized p = Some c \<and> untouched a c
      \<longrightarrow> (\<exists>x. GetByPath (value (Config b')) p = Some x
             \<and> Location x = Location a \<and> (\<not> isContainer a \<longrightarrow> x = a))"
    using override_untouched [OF ov] by blast
  from 1 2 3 4 show ?thesis by (intro conjI)
qed

lemma example_init_run:
  "Apply (exampleSys generatedOutput []) PythonMutatorPhaseInit
       (exampleBundle (pydabsEnabled ''.venv'')) []
     = (None,
        \<lparr> RootPath = ''/project'',
          Config = \<lparr> Experimental = pydabsEnabled ''.venv'', value = mergedDocument \<rparr> \<rparr>,
        exampleHistory PythonMutatorPhaseInit)"
  by (simp add: example_run checkNormalized_def Filter_def createOverrideVisitor_def
      PythonMutatorPhaseInit_def PythonMutatorPhaseLoad_def
      example_merge [unfolded PythonMutatorPhaseInit_def])

theorem generated_locations_after_init_merge_witness:
  "Apply (exampleSys generatedOutput []) PythonMutatorPhaseInit
       (exampleBundle (pydabsEnabled ''.venv'')) []
     = (None,
        \<lparr> RootPath = ''/project'',
          Config = \<lparr> Experimental = pydabsEnabled ''.venv'', value = mergedDocument \<rparr> \<rparr>,
        exampleHistory PythonMutatorPhaseInit)
   \<and> fileAt mergedDocument [Key ''resources'', Key ''jobs'', Key ''job0'', Key ''description'']
     = Some ''/project/__generated_by_pydabs__.yml''
   \<and> fileAt mergedDocument [Key ''resources'', Key ''jobs'', Key ''job0'', Key ''name'']
     = Some ''databricks.yml''"
proof -
  let ?sys = "exampleSys generatedOutput []"
  let ?b = "exampleBundle (pydabsEnabled ''.venv'')"
  let ?b' = "\<lparr> RootPath = ''/project'',
      Config = \<lparr> Experimental = pydabsEnabled ''.venv'', value = mergedDocument \<rparr> \<rparr>"
  let ?e = "\<lparr> PyDABs = \<lparr> Enabled = True, VEnvPath = ''.venv'' \<rparr> \<rparr>"
  let ?vp = "''/project/__generated_by_pydabs__.yml''"
  let ?h2 = "[EvStat ''.venv/bin/python3'', EvMkdirAll ''/tmp/bundle/default/pydabs'' None]"
  let ?description = "[Key ''resources'', Key ''jobs'', Key ''job0'', Key ''description'']"
  let ?name = "[Key ''resources'', Key ''jobs'', Key ''job0'', Key ''name'']"
  have en: "Experimental (Config ?b) = Some ?e" "Enabled (PyDABs ?e)"
    "VEnvPath (PyDABs ?e) \<noteq> []"
    by (simp_all add: exampleBundle_def pydabsEnabled_def)
  have names: "''.venv/bin/python3'' = interpreterPath ?sys (VEnvPath (PyDABs ?e))"
    "''/tmp/bundle/default/pydabs/input.json''
       = Join ?sys [''/tmp/bundle/default/pydabs'', ''input.json'']"
    "''/tmp/bundle/default/pydabs/output.json''
       = Join ?sys [''/tmp/bundle/default/pydabs'', ''output.json'']"
    "exampleArgs PythonMutatorPhaseInit
       = [''.venv/bin/python3'', ''-m'', ''databricks.bundles.build'', ''--phase'',
          PythonMutatorPhaseInit, ''--input'', ''/tmp/bundle/default/pydabs/input.json'',
          ''--output'', ''/tmp/bundle/default/pydabs/output.json'']"
    by (simp_all add: interpreterPath_def exampleSys_def example_paths exampleArgs_def)
  have statOk: "Stat ?sys [] ''.venv/bin/python3'' = None"
    by (simp add: exampleSys_def)
  have cacheOk: "createCacheDir ?sys ([] @ [EvStat ''.venv/bin/python3''])
      = (Inr ''/tmp/bundle/default/pydabs'', ?h2)"
    by (simp add: createCacheDir_def exampleSys_def example_paths Let_def)
  have marshalOk: "Marshal ?sys (AsAny (value (Config ?b))) = Inr ''{}''"
    by (simp add: exampleSys_def)
  have writeOk: "WriteFile ?sys ?h2 ''/tmp/bundle/default/pydabs/input.json'' ''{}'' = None"
    by (simp add: exampleSys_def)
  have processOk: "Background ?sys
      (?h2 @ [EvWriteFile ''/tmp/bundle/default/pydabs/input.json'' ''{}''])
      (exampleArgs PythonMutatorPhaseInit) (RootPath ?b) = None"
    by (simp add: exampleSys_def)
  have openOk: "Open ?sys
      (?h2 @ [EvWriteFile ''/tmp/bundle/default/pydabs/input.json'' ''{}'',
         EvBackground (exampleArgs PythonMutatorPhaseInit) (RootPath ?b)])
      ''/tmp/bundle/default/pydabs/output.json'' = Inr ''output''"
    by (simp add: exampleSys_def)
  have absOk: "Abs ?sys
      (?h2 @ [EvWriteFile ''/tmp/bundle/default/pydabs/input.json'' ''{}'',
         EvBackground (exampleArgs PythonMutatorPhaseInit) (RootPath ?b),
         EvOpen ''/tmp/bundle/default/pydabs/output.json''])
      (Join ?sys [RootPath ?b, ''__generated_by_pydabs__.yml'']) = Inr ?vp"
    by (simp add: exampleSys_def exampleBundle_def example_paths)
  have parseOk: "Parse ?sys ''output'' = Inr generatedOutput"
    by (simp add: exampleSys_def)
  have normalizeOk: "Normalize ?sys (withFile ?vp generatedOutput)
      = (withFile ?vp generatedOutput, [])"
    by (simp add: exampleSys_def)
  have keeps: "\<forall>p x. GetByPath (withFile ?vp generatedOutput) p = Some x
      \<longrightarrow> File (Location x) = ?vp"
    by (auto dest: loaded_nodes_have_file)
  have run: "Apply ?sys PythonMutatorPhaseInit ?b [] = (None, ?b', exampleHistory PythonMutatorPhaseInit)"
    by (rule example_init_run)
  note facts = generated_locations_after_init_merge [OF en names statOk cacheOk marshalOk
      writeOk processOk openOk absOk parseOk normalizeOk keeps run]
  have added: "GetByPath (value (Config ?b)) ?description = None
      \<and> GetByPath (withFile ?vp generatedOutput) ?description
          = Some (NewValue (DString ''my job'') (position ?vp 12 20))"
    by (simp add: exampleBundle_def exampleDocument_def generatedOutput_def position_def)
  from facts [THEN conjunct2, THEN conjunct1, rule_format, OF added]
  have d: "fileAt mergedDocument ?description = Some ?vp"
    by (simp add: fileAt_def)
  have kept: "GetByPath (value (Config ?b)) ?name
        = Some (NewValue (DString ''job_0'') (position ''databricks.yml'' 9 19))
      \<and> GetByPath (withFile ?vp generatedOutput) ?name
        = Some (NewValue (DString ''job_0'') (position ?vp 11 13))
      \<and> untouched (NewValue (DString ''job_0'') (position ''databricks.yml'' 9 19))
          (NewValue (DString ''job_0'') (position ?vp 11 13))"
    by (simp add: exampleBundle_def exampleDocument_def generatedOutput_def untouched_def
        Kind_def position_def)
  from facts [THEN conjunct2, THEN conjunct2, THEN conjunct2, rule_format, OF kept]
  have n: "fileAt mergedDocument ?name = Some ''databricks.yml''"
    by (auto simp: fileAt_def position_def)
  from run d n show ?thesis by (intro conjI)
qed

text \<open>
  Claim C5 as stated fails: the file of a field that the plugin added is
  \<^verbatim>\<open>/project/__generated_by_pydabs__.yml\<close> for the project root \<^verbatim>\<open>/project\<close>, and not
  \<^verbatim>\<open>/project/__generated__.yml\<close>, the path that the claim names.
\<close>

theorem generated_file_is_not_the_spec_name:
  "fst (Apply (exampleSys generatedOutput []) PythonMutatorPhaseInit
         (exampleBundle (pydabsEnabled ''.venv'')) []) = None
   \<and> fileAt (value (Config (fst (snd (Apply (exampleSys generatedOutput [])
         PythonMutatorPhaseInit (exampleBundle (pydabsEnabled ''.venv'')) []))))) 
        [Key ''resources'', Key ''jobs'', Key ''job0'', Key ''description'']
     = Some ''/project/__generated_by_pydabs__.yml''
   \<and> unixAbs ''/project'' (unixJoin [''/project'', ''__generated__.yml''])
     = Inr ''/project/__generated__.yml''
   \<and> ''/project/__generated_by_pydabs__.yml'' \<noteq> ''/project/__generated__.yml''"
proof -
  have "unixAbs ''/project'' (unixJoin [''/project'', ''__generated__.yml''])
     = Inr ''/project/__generated__.yml''"
    by code_simp
  then show ?thesis
    by (simp add: example_init_run fileAt_def mergedDocument_def position_def)
qed

section \<open>Conflicting resource names: facts\<close>

lemma set_firstOccurrences: "set (firstOccurrences xs) = set xs"
  by (induction xs rule: firstOccurrences.induct) auto

lemma distinct_firstOccurrences: "distinct (firstOccurrences xs)"
  by (induction xs rule: firstOccurrences.induct) (auto simp: set_firstOccurrences)

lemma two_in_distinct:
  assumes "distinct xs" "a \<in> set xs" "b \<in> set xs" "a \<noteq> b"
  shows "1 < length xs"
proof -
  have "card {a, b} \<le> card (set xs)" using assms by (intro card_mono) auto
  with assms show ?thesis by (simp add: distinct_card)
qed

lemma firstOccurrences_distinct: "distinct xs \<Longrightarrow> firstOccurrences xs = xs"
proof (induction xs)
  case Nil
  show ?case by simp
next
  case (Cons x xs)
  then have "filter (\<lambda>y. y \<noteq> x) xs = xs" by (auto intro: filter_True)
  with Cons show ?case by simp
qed

lemma occurrences_conflict:
  assumes "d1 \<in> set decls" "d2 \<in> set decls" "entityName d1 = entityName d2"
    and "(entityKind d1, declaredAt d1) \<noteq> (entityKind d2, declaredAt d2)"
  shows "1 < length (occurrences (entityName d1) decls)"
proof -
  let ?ps = "map (\<lambda>d. (entityKind d, declaredAt d)) (filter (\<lambda>d. entityName d = entityName d1) decls)"
  have "(entityKind d1, declaredAt d1) \<in> set ?ps" "(entityKind d2, declaredAt d2) \<in> set ?ps"
    using assms(1,2,3) by auto
  then have "(entityKind d1, declaredAt d1) \<in> set (firstOccurrences ?ps)"
    "(entityKind d2, declaredAt d2) \<in> set (firstOccurrences ?ps)"
    by (simp_all only: set_firstOccurrences)
  from two_in_distinct [OF distinct_firstOccurrences this assms(4)]
  show ?thesis by (simp add: occurrences_def)
qed

lemma conflictingNames_iff:
  "name \<in> set (conflictingNames decls) \<longleftrightarrow>
     name \<in> entityName ` set decls \<and> 1 < length (occurrences name decls)"
  by (auto simp: conflictingNames_def set_firstOccurrences)

lemma detectConflicts_reports:
  "detectConflicts files =
     (case conflictingNames (concat files) of
        [] \<Rightarrow> None
      | name # others \<Rightarrow>
          Some (ConflictError (conflictMessage name (occurrences name (concat files)))))"
  by (simp add: detectConflicts_def Let_def)

text \<open>
  Claim C6. When two declarations of the loaded files (in two files or in one) have the
  same name and differ in kind or in location, the detection fails with the single error
  \<^verbatim>\<open>multiple resources named <name> (<kind> at <file>:<line>:<col>, ...)\<close> for a name that
  has more than one occurrence (for the name of the two declarations when no other name
  conflicts). The list holds every occurrence of the name, joined by commas, in the order
  of the scan: the occurrences are the declarations of that name in the order of the files
  and, within a file, of its declarations.
\<close>

theorem conflicting_names_fail:
  assumes "d1 \<in> set (concat files)" "d2 \<in> set (concat files)"
    and "entityName d1 = entityName d2"
    and "(entityKind d1, declaredAt d1) \<noteq> (entityKind d2, declaredAt d2)"
  shows "(\<exists>name. 1 < length (occurrences name (concat files))
            \<and> detectConflicts files =
                Some (ConflictError
                  (''multiple resources named '' @ name @ '' (''
                     @ joinWith '', '' (map renderOccurrence (occurrences name (concat files)))
                     @ '')''))
            \<and> ((\<forall>other. 1 < length (occurrences other (concat files))
                    \<longrightarrow> other = entityName d1) \<longrightarrow> name = entityName d1))
       \<and> (distinct (map (\<lambda>d. (entityKind d, declaredAt d)) (concat files))
            \<longrightarrow> (\<forall>name. occurrences name (concat files) =
                   map (\<lambda>d. (entityKind d, declaredAt d))
                     (filter (\<lambda>d. entityName d = name) (concat files))))"
proof -
  let ?decls = "concat files"
  have "entityName d1 \<in> set (conflictingNames ?decls)"
    using assms(1) occurrences_conflict [OF assms] by (simp add: conflictingNames_iff)
  then obtain name others where names: "conflictingNames ?decls = name # others"
    by (cases "conflictingNames ?decls") auto
  then have "name \<in> set (conflictingNames ?decls)" by simp
  then have many: "1 < length (occurrences name ?decls)" by (simp add: conflictingNames_iff)
  have report: "detectConflicts files =
      Some (ConflictError
        (''multiple resources named '' @ name @ '' (''
           @ joinWith '', '' (map renderOccurrence (occurrences name ?decls)) @ '')''))"
    by (simp add: detectConflicts_reports names conflictMessage_def)
  have only: "(\<forall>other. 1 < length (occurrences other ?decls) \<longrightarrow> other = entityName d1)
      \<longrightarrow> name = entityName d1"
    using many by blast
  have order: "distinct (map (\<lambda>d. (entityKind d, declaredAt d)) ?decls)
      \<longrightarrow> (\<forall>name. occurrences name ?decls =
             map (\<lambda>d. (entityKind d, declaredAt d)) (filter (\<lambda>d. entityName d = name) ?decls))"
  proof (intro impI allI)
    fix n
    assume "distinct (map (\<lambda>d. (entityKind d, declaredAt d)) ?decls)"
    then have "distinct (map (\<lambda>d. (entityKind d, declaredAt d))
        (filter (\<lambda>d. entityName d = n) ?decls))"
      by (rule distinct_map_filter)
    then show "occurrences n ?decls =
        map (\<lambda>d. (entityKind d, declaredAt d)) (filter (\<lambda>d. entityName d = n) ?decls)"
      unfolding occurrences_def by (rule firstOccurrences_distinct)
  qed
  from many report only order show ?thesis by blast
qed

lemma conflictExample_result:
  "detectConflicts conflictExample =
     Some (ConflictError ''multiple resources named foo (job at conflicting_resource_ids/one_subconfiguration/databricks.yml:13:7, pipeline at conflicting_resource_ids/one_subconfiguration/resources.yml:4:7)'')"
  by code_simp

theorem conflicting_names_fail_witness:
  "detectConflicts conflictExample =
     Some (ConflictError ''multiple resources named foo (job at conflicting_resource_ids/one_subconfiguration/databricks.yml:13:7, pipeline at conflicting_resource_ids/one_subconfiguration/resources.yml:4:7)'')
   \<and> occurrences ''foo'' (concat conflictExample) =
       [(''job'', position ''conflicting_resource_ids/one_subconfiguration/databricks.yml'' 13 7),
        (''pipeline'', position ''conflicting_resource_ids/one_subconfiguration/resources.yml'' 4 7)]"
proof -
  let ?job = "\<lparr> entityKind = ''job'', entityName = ''foo'',
      declaredAt = position ''conflicting_resource_ids/one_subconfiguration/databricks.yml'' 13 7 \<rparr>"
  let ?pipeline = "\<lparr> entityKind = ''pipeline'', entityName = ''foo'',
      declaredAt = position ''conflicting_resource_ids/one_subconfiguration/resources.yml'' 4 7 \<rparr>"
  have mem: "?job \<in> set (concat conflictExample)" "?pipeline \<in> set (concat conflictExample)"
    by (simp_all add: conflictExample_def)
  have same: "entityName ?job = entityName ?pipeline" by simp
  have diff: "(entityKind ?job, declaredAt ?job) \<noteq> (entityKind ?pipeline, declaredAt ?pipeline)"
    by simp
  have dist: "distinct (map (\<lambda>d. (entityKind d, declaredAt d)) (concat conflictExample))"
    by (simp add: conflictExample_def)
  from conflicting_names_fail [OF mem same diff, THEN conjunct2, THEN mp, OF dist]
  have occ: "occurrences ''foo'' (concat conflictExample) =
       [(''job'', position ''conflicting_resource_ids/one_subconfiguration/databricks.yml'' 13 7),
        (''pipeline'', position ''conflicting_resource_ids/one_subconfiguration/resources.yml'' 4 7)]"
    by (simp add: conflictExample_def)
  from conflictExample_result occ show ?thesis by (intro conjI)
qed

end
